theory Spec2Isabelle
  imports Main "HOL-Library.Word"
begin

section \<open>Buffers, JavaScript strings and numbers\<close>

text \<open>
  A datagram is a Node \<^verbatim>\<open>Buffer\<close>: a list of bytes. A JavaScript string is a
  sequence of UTF-16 code units, and \<^verbatim>\<open>s.length\<close> counts code units, so a
  string is a list of code units (each below \<open>65536\<close>).
\<close>

type_synonym byte = "8 word"
type_synonym buffer = "byte list"
type_synonym jsstring = "nat list"

text \<open>An ASCII literal of the source, as a string and as bytes.\<close>

definition lit :: "string \<Rightarrow> jsstring" where
  "lit s = map of_char s"

definition ascii :: "string \<Rightarrow> buffer" where
  "ascii s = map of_char s"

text \<open>\<^verbatim>\<open>data[i]\<close>: \<open>None\<close> is \<^verbatim>\<open>undefined\<close>, read past the end.\<close>

definition at :: "buffer \<Rightarrow> nat \<Rightarrow> byte option" where
  "at data i = (if i < length data then Some (data ! i) else None)"

text \<open>\<^verbatim>\<open>data.slice(s, e)\<close> for \<open>0 \<le> s\<close> and \<open>0 \<le> e\<close>; both ends are clamped to the
  length and an empty range is the empty buffer.\<close>

definition slice :: "'a list \<Rightarrow> nat \<Rightarrow> nat \<Rightarrow> 'a list" where
  "slice data s e = drop s (take e data)"

text \<open>\<^verbatim>\<open>v || 0\<close> for a byte read that may be \<^verbatim>\<open>undefined\<close>.\<close>

definition or0 :: "byte option \<Rightarrow> nat" where
  "or0 v = (case v of None \<Rightarrow> 0 | Some b \<Rightarrow> unat b)"

subsection \<open>\<^verbatim>\<open>toString('utf8')\<close>\<close>

text \<open>
  \<^verbatim>\<open>Buffer.toString('utf8')\<close> decodes as the WHATWG UTF-8 decoder does: a well-formed
  sequence gives its code point, and every maximal ill-formed prefix gives one
  \<open>U+FFFD\<close>, after which decoding resumes at the byte that did not fit.
  \<open>utf8_step\<close> decodes one code point from a non-empty buffer and says how many bytes
  it consumed.
\<close>

definition cont :: "byte \<Rightarrow> bool" where
  "cont c \<longleftrightarrow> 0x80 \<le> unat c \<and> unat c \<le> 0xBF"

definition between :: "nat \<Rightarrow> nat \<Rightarrow> byte \<Rightarrow> bool" where
  "between lo hi c \<longleftrightarrow> lo \<le> unat c \<and> unat c \<le> hi"

definition low6 :: "byte \<Rightarrow> nat" where
  "low6 c = unat c mod 64"

fun utf8_step :: "buffer \<Rightarrow> nat \<times> nat" where
  "utf8_step [] = (0xFFFD, 1)"
| "utf8_step (b # bs) =
     (if unat b < 0x80 then (unat b, 1)
      else if 0xC2 \<le> unat b \<and> unat b \<le> 0xDF then
        (case bs of
           [] \<Rightarrow> (0xFFFD, 1)
         | c # _ \<Rightarrow>
             if cont c then ((unat b mod 32) * 64 + low6 c, 2) else (0xFFFD, 1))
      else if 0xE0 \<le> unat b \<and> unat b \<le> 0xEF then
        (case bs of
           [] \<Rightarrow> (0xFFFD, 1)
         | c # cs \<Rightarrow>
             if \<not> between (if unat b = 0xE0 then 0xA0 else 0x80)
                          (if unat b = 0xED then 0x9F else 0xBF) c
             then (0xFFFD, 1)
             else (case cs of
                     [] \<Rightarrow> (0xFFFD, 2)
                   | d # _ \<Rightarrow>
                       if cont d
                       then (((unat b mod 16) * 64 + low6 c) * 64 + low6 d, 3)
                       else (0xFFFD, 2)))
      else if 0xF0 \<le> unat b \<and> unat b \<le> 0xF4 then
        (case bs of
           [] \<Rightarrow> (0xFFFD, 1)
         | c # cs \<Rightarrow>
             if \<not> between (if unat b = 0xF0 then 0x90 else 0x80)
                          (if unat b = 0xF4 then 0x8F else 0xBF) c
             then (0xFFFD, 1)
             else (case cs of
                     [] \<Rightarrow> (0xFFFD, 2)
                   | d # ds \<Rightarrow>
                       if \<not> cont d then (0xFFFD, 2)
                       else (case ds of
                               [] \<Rightarrow> (0xFFFD, 3)
                             | e # _ \<Rightarrow>
                                 if cont e
                                 then ((((unat b mod 8) * 64 + low6 c) * 64 + low6 d) * 64
                                         + low6 e, 4)
                                 else (0xFFFD, 3))))
      else (0xFFFD, 1))"

text \<open>A code point as UTF-16: one unit in the basic plane, a surrogate pair above.\<close>

definition utf16 :: "nat \<Rightarrow> jsstring" where
  "utf16 cp =
     (if cp < 0x10000 then [cp]
      else [0xD800 + (cp - 0x10000) div 0x400, 0xDC00 + (cp - 0x10000) mod 0x400])"

lemma utf8_step_pos: "0 < snd (utf8_step bs)"
  by (cases bs) (auto split: list.splits)

function utf8 :: "buffer \<Rightarrow> jsstring" where
  "utf8 bs =
     (if bs = [] then []
      else utf16 (fst (utf8_step bs)) @ utf8 (drop (snd (utf8_step bs)) bs))"
  by pat_completeness auto
termination
  by (relation "measure length") (use utf8_step_pos in \<open>auto simp: neq0_conv\<close>)

declare utf8.simps [simp del]

subsection \<open>\<^verbatim>\<open>String.prototype.trim\<close>\<close>

text \<open>The code units ECMAScript counts as white space or line terminator.\<close>

definition js_space :: "nat \<Rightarrow> bool" where
  "js_space u \<longleftrightarrow>
     (9 \<le> u \<and> u \<le> 13) \<or> u = 0x20 \<or> u = 0xA0 \<or> u = 0x1680 \<or>
     (0x2000 \<le> u \<and> u \<le> 0x200A) \<or> u = 0x2028 \<or> u = 0x2029 \<or> u = 0x202F \<or>
     u = 0x205F \<or> u = 0x3000 \<or> u = 0xFEFF"

definition trim :: "jsstring \<Rightarrow> jsstring" where
  "trim s = rev (dropWhile js_space (rev (dropWhile js_space s)))"

subsection \<open>Little-endian reads\<close>

text \<open>
  \<^verbatim>\<open>readUInt16LE\<close>, \<^verbatim>\<open>readInt32LE\<close> and \<^verbatim>\<open>readFloatLE\<close> throw a
  \<^verbatim>\<open>RangeError\<close> when the field does not fit in the buffer: \<open>None\<close>. A float is
  kept as its IEEE-754 single-precision bit pattern; JavaScript has one NaN, so
  every NaN pattern reads as the canonical one.
\<close>

definition le_nat :: "buffer \<Rightarrow> nat" where
  "le_nat bs = foldr (\<lambda>b acc. unat b + 256 * acc) bs 0"

definition readUInt16LE :: "buffer \<Rightarrow> nat \<Rightarrow> nat option" where
  "readUInt16LE data offset =
     (if offset + 2 \<le> length data then Some (le_nat (slice data offset (offset + 2)))
      else None)"

definition int32le :: "buffer \<Rightarrow> int" where
  "int32le bs = sint (word_of_nat (le_nat bs) :: 32 word)"

definition readInt32LE :: "buffer \<Rightarrow> nat \<Rightarrow> int option" where
  "readInt32LE data offset =
     (if offset + 4 \<le> length data then Some (int32le (slice data offset (offset + 4)))
      else None)"

type_synonym float32 = "32 word"

definition is_nan :: "float32 \<Rightarrow> bool" where
  "is_nan w \<longleftrightarrow> 0x7F800000 < unat w mod 0x80000000"

definition is_zero :: "float32 \<Rightarrow> bool" where
  "is_zero w \<longleftrightarrow> unat w mod 0x80000000 = 0"

definition float32le :: "buffer \<Rightarrow> float32" where
  "float32le bs =
     (let w = word_of_nat (le_nat bs) :: 32 word in if is_nan w then 0x7FC00000 else w)"

definition readFloatLE :: "buffer \<Rightarrow> nat \<Rightarrow> float32 option" where
  "readFloatLE data offset =
     (if offset + 4 \<le> length data then Some (float32le (slice data offset (offset + 4)))
      else None)"

text \<open>\<^verbatim>\<open>duration || 0\<close>: NaN and both zeros are falsy and become \<open>+0\<close>.\<close>

definition float_or0 :: "float32 \<Rightarrow> float32" where
  "float_or0 w = (if is_nan w \<or> is_zero w then 0 else w)"

subsection \<open>Scanning to the terminator\<close>

text \<open>
  \<^verbatim>\<open>while (offset < data.length && data[offset] !== 0) offset++\<close>: the loop of
  \<^verbatim>\<open>readString\<close> in both files and of the name scan in \<^verbatim>\<open>parsePlayerInfo\<close>.
\<close>

function scan :: "buffer \<Rightarrow> nat \<Rightarrow> nat" where
  "scan data offset =
     (if offset < length data \<and> data ! offset \<noteq> 0 then scan data (Suc offset) else offset)"
  by pat_completeness auto
termination
  by (relation "measure (\<lambda>(data, offset). length data - offset)") auto

declare scan.simps [simp del]

section \<open>Errors and results\<close>

text \<open>
  The failures of a query, as values: the timer's \<^verbatim>\<open>'Timeout'\<close>, an error handed
  over by the socket or by \<^verbatim>\<open>send\<close>, an \<^verbatim>\<open>Error\<close> thrown by a decoder (with its
  message), and \<^verbatim>\<open>'Invalid challenge response'\<close>.
\<close>

datatype QueryError = Timeout | Network | MalformedResponse string | ChallengeRejected

record PlayerEntry =
  index :: nat
  name :: jsstring
  score :: int
  duration :: float32

section \<open>The decoders of \<^verbatim>\<open>src/server.js\<close>\<close>

text \<open>
  The object \<^verbatim>\<open>parseServerInfo\<close> returns has seven fields; \<^verbatim>\<open>folder\<close>,
  \<^verbatim>\<open>serverType\<close> and \<^verbatim>\<open>environment\<close> are read and not returned.
\<close>

record ServerInfo =
  si_name :: jsstring
  si_map :: jsstring
  si_game :: jsstring
  si_players :: nat
  si_maxPlayers :: nat
  si_bots :: nat
  si_appId :: nat

text \<open>The closures of \<^verbatim>\<open>parseServerInfo\<close>, with the offset they share passed along.\<close>

definition si_readString :: "buffer \<Rightarrow> nat \<Rightarrow> jsstring \<times> nat" where
  "si_readString data offset =
     (utf8 (slice data offset (scan data offset)), Suc (scan data offset))"

definition si_readByte :: "buffer \<Rightarrow> nat \<Rightarrow> byte option \<times> nat" where
  "si_readByte data offset = (at data offset, Suc offset)"

definition si_readShort :: "buffer \<Rightarrow> nat \<Rightarrow> (nat \<times> nat) option" where
  "si_readShort data offset =
     (case readUInt16LE data offset of
        None \<Rightarrow> None
      | Some val \<Rightarrow> Some (val, offset + 2))"

text \<open>\<^verbatim>\<open>s || 'Unknown ...'\<close>: the empty string is falsy.\<close>

definition str_or :: "jsstring \<Rightarrow> jsstring \<Rightarrow> jsstring" where
  "str_or s d = (if s = [] then d else s)"

text \<open>
  The body of the \<^verbatim>\<open>try\<close> block: \<open>Inl\<close> is an exception raised inside it, either
  the explicit \<^verbatim>\<open>'Insufficient data for server info'\<close> or a \<^verbatim>\<open>RangeError\<close> of
  \<^verbatim>\<open>readUInt16LE\<close>.
\<close>

definition si_try :: "buffer \<Rightarrow> string + ServerInfo" where
  "si_try data =
     (let (name, o1) = si_readString data 6;
          (map, o2) = si_readString data o1;
          (folder, o3) = si_readString data o2;
          (game, o4) = si_readString data o3
      in if o4 + 7 > length data then Inl ''Insufficient data for server info''
         else
           (case si_readShort data o4 of
              None \<Rightarrow> Inl ''RangeError''
            | Some (appId, o5) \<Rightarrow>
                (let (players, o6) = si_readByte data o5;
                     (maxPlayers, o7) = si_readByte data o6;
                     (bots, o8) = si_readByte data o7;
                     (serverType, o9) = si_readByte data o8;
                     (environment, o10) = si_readByte data o9
                 in Inr \<lparr>si_name = str_or name (lit ''Unknown Server''),
                         si_map = str_or map (lit ''Unknown Map''),
                         si_game = str_or game (lit ''Unknown Game''),
                         si_players = or0 players,
                         si_maxPlayers = or0 maxPlayers,
                         si_bots = or0 bots,
                         si_appId = appId\<rparr>)))"

text \<open>The object of the \<^verbatim>\<open>catch\<close> block.\<close>

definition parse_error_info :: ServerInfo where
  "parse_error_info =
     \<lparr>si_name = lit ''Parse Error'', si_map = lit ''Unknown'', si_game = lit ''Unknown'',
      si_players = 0, si_maxPlayers = 0, si_bots = 0, si_appId = 0\<rparr>"

definition parseServerInfo :: "buffer \<Rightarrow> QueryError + ServerInfo" where
  "parseServerInfo data =
     (if length data < 6 \<or> at data 4 \<noteq> Some 0x49
      then Inl (MalformedResponse ''Invalid server info response'')
      else (case si_try data of
              Inl err \<Rightarrow> Inr parse_error_info
            | Inr info \<Rightarrow> Inr info))"

text \<open>
  The loop of \<^verbatim>\<open>parsePlayerInfo\<close>. A \<^verbatim>\<open>RangeError\<close> of a read would leave the
  loop through the \<^verbatim>\<open>catch\<close>, which logs it and returns the players pushed so far.
\<close>

function pi_loop :: "buffer \<Rightarrow> nat \<Rightarrow> nat \<Rightarrow> nat \<Rightarrow> PlayerEntry list \<Rightarrow> PlayerEntry list"
where
  "pi_loop data playerCount i offset players =
     (if i < playerCount \<and> offset < length data then
        (if offset \<ge> length data then players
         else
           (let ix = unat (data ! offset);
                nameStart = Suc offset;
                nameEnd = scan data nameStart;
                nm = utf8 (slice data nameStart nameEnd);
                offset2 = Suc nameEnd
            in if offset2 + 8 > length data then players
               else
                 (case readInt32LE data offset2 of
                    None \<Rightarrow> players
                  | Some sc \<Rightarrow>
                      (case readFloatLE data (offset2 + 4) of
                         None \<Rightarrow> players
                       | Some du \<Rightarrow>
                           pi_loop data playerCount (Suc i) (offset2 + 8)
                             (if nm \<noteq> []
                              then players @
                                [\<lparr>index = ix, name = trim nm, score = sc,
                                  duration = float_or0 du\<rparr>]
                              else players)))))
      else players)"
  by pat_completeness auto
termination
  by (relation "measure (\<lambda>(data, playerCount, i, offset, players). playerCount - i)") auto

declare pi_loop.simps [simp del]

text \<open>
  \<^verbatim>\<open>offset = 6\<close>, then \<^verbatim>\<open>playerCount = data[offset++]\<close>: the count is the byte at
  offset 6, \<^verbatim>\<open>undefined\<close> in a buffer of six bytes, where \<^verbatim>\<open>i < undefined\<close> is
  false and the loop does not run.
\<close>

definition parsePlayerInfo :: "buffer \<Rightarrow> QueryError + PlayerEntry list" where
  "parsePlayerInfo data =
     (if length data < 6 \<or> at data 4 \<noteq> Some 0x44
      then Inl (MalformedResponse ''Invalid player info response'')
      else (case at data 6 of
              None \<Rightarrow> Inr []
            | Some playerCount \<Rightarrow> Inr (pi_loop data (unat playerCount) 0 7 [])))"

section \<open>The decoders of \<^verbatim>\<open>src/unnamed/part_000\<close>\<close>

definition readString :: "buffer \<Rightarrow> nat \<Rightarrow> jsstring" where
  "readString buffer offset = utf8 (slice buffer offset (scan buffer offset))"

text \<open>
  \<^verbatim>\<open>parseA2SInfo\<close> returns one of two objects: the long one when eight bytes follow
  the strings, else the short one, which has no \<^verbatim>\<open>protocol\<close>, \<^verbatim>\<open>serverType\<close>
  or \<^verbatim>\<open>environment\<close>. It advances by \<^verbatim>\<open>name.length + 1\<close>, the length of the
  decoded string.
\<close>

record A2SInfo =
  a2s_name :: jsstring
  a2s_map :: jsstring
  a2s_folder :: jsstring
  a2s_game :: jsstring
  a2s_players :: nat
  a2s_maxPlayers :: nat
  a2s_protocol :: "nat option"
  a2s_serverType :: "jsstring option"
  a2s_environment :: "jsstring option"

text \<open>\<^verbatim>\<open>String.fromCharCode(buffer[i])\<close> for a byte in range.\<close>

definition fromCharCode :: "byte \<Rightarrow> jsstring" where
  "fromCharCode b = [unat b]"

definition parseA2SInfo :: "buffer \<Rightarrow> QueryError + A2SInfo" where
  "parseA2SInfo buffer =
     (let name = readString buffer 5;
          o1 = 5 + (length name + 1);
          map = readString buffer o1;
          o2 = o1 + (length map + 1);
          folder = readString buffer o2;
          o3 = o2 + (length folder + 1);
          game = readString buffer o3;
          offset = o3 + (length game + 1)
      in if offset + 8 \<le> length buffer
         then Inr \<lparr>a2s_name = name, a2s_map = map, a2s_folder = folder, a2s_game = game,
                   a2s_players = unat (buffer ! (offset + 2)),
                   a2s_maxPlayers = unat (buffer ! (offset + 3)),
                   a2s_protocol = Some (unat (buffer ! (offset + 1))),
                   a2s_serverType = Some (fromCharCode (buffer ! (offset + 4))),
                   a2s_environment = Some (fromCharCode (buffer ! (offset + 5)))\<rparr>
         else Inr \<lparr>a2s_name = name, a2s_map = map, a2s_folder = folder, a2s_game = game,
                   a2s_players = 0, a2s_maxPlayers = 0, a2s_protocol = None,
                   a2s_serverType = None, a2s_environment = None\<rparr>)"

text \<open>
  The loop of \<^verbatim>\<open>parseA2SPlayers\<close>: an entry that does not fit is not pushed, and the
  loop goes on to the next \<^verbatim>\<open>i\<close>.
\<close>

function a2s_loop :: "buffer \<Rightarrow> nat \<Rightarrow> nat \<Rightarrow> nat \<Rightarrow> PlayerEntry list \<Rightarrow> PlayerEntry list"
where
  "a2s_loop buffer playerCount i offset players =
     (if i < playerCount \<and> offset < length buffer then
        (if offset \<ge> length buffer then players
         else
           (let ix = unat (buffer ! offset);
                nm = readString buffer (Suc offset);
                offset2 = Suc offset + (length nm + 1)
            in if offset2 + 8 \<le> length buffer
               then
                 (case readInt32LE buffer offset2 of
                    None \<Rightarrow> players
                  | Some sc \<Rightarrow>
                      (case readFloatLE buffer (offset2 + 4) of
                         None \<Rightarrow> players
                       | Some du \<Rightarrow>
                           a2s_loop buffer playerCount (Suc i) (offset2 + 8)
                             (players @
                                [\<lparr>index = ix, name = nm, score = sc, duration = du\<rparr>])))
               else a2s_loop buffer playerCount (Suc i) offset2 players))
      else players)"
  by pat_completeness auto
termination
  by (relation "measure (\<lambda>(buffer, playerCount, i, offset, players). playerCount - i)") auto

declare a2s_loop.simps [simp del]

definition parseA2SPlayers :: "buffer \<Rightarrow> QueryError + PlayerEntry list" where
  "parseA2SPlayers buffer =
     (if length buffer < 6 then Inr []
      else Inr (a2s_loop buffer (unat (buffer ! 5)) 0 6 []))"

section \<open>One query as an event-driven state machine\<close>

text \<open>
  A query is a promise executor that opens a socket, arms a timer, sends, and registers
  callbacks; afterwards the event loop runs one callback per event. The state holds the
  variables of the closure and what the runtime knows: how often \<^verbatim>\<open>client.close()\<close>
  and \<^verbatim>\<open>setTimeout\<close> were called, whether the timer is still armed (neither fired
  nor cleared), the datagrams handed to \<^verbatim>\<open>client.send\<close>, and how the promise
  settled. A promise settles once: a later \<^verbatim>\<open>resolve\<close> or \<^verbatim>\<open>reject\<close> changes
  nothing.
\<close>

datatype event =
    TimerFired           \<comment> \<open>the \<^verbatim>\<open>setTimeout\<close> callback\<close>
  | SendFailed           \<comment> \<open>a \<^verbatim>\<open>send\<close> callback called with an error\<close>
  | Message buffer       \<comment> \<open>the socket's \<^verbatim>\<open>'message'\<close> event\<close>
  | SocketError          \<comment> \<open>the socket's \<^verbatim>\<open>'error'\<close> event\<close>

record 'r query =
  closes :: nat
  timers :: nat
  timer_on :: bool
  sent :: "buffer list"
  outcome :: "(QueryError + 'r) option"

definition close :: "('r, 'x) query_scheme \<Rightarrow> ('r, 'x) query_scheme" where
  "close s = s\<lparr>closes := Suc (closes s)\<rparr>"

definition clearTimeout :: "('r, 'x) query_scheme \<Rightarrow> ('r, 'x) query_scheme" where
  "clearTimeout s = s\<lparr>timer_on := False\<rparr>"

definition settle :: "QueryError + 'r \<Rightarrow> ('r, 'x) query_scheme \<Rightarrow> ('r, 'x) query_scheme" where
  "settle r s = (case outcome s of None \<Rightarrow> s\<lparr>outcome := Some r\<rparr> | Some _ \<Rightarrow> s)"

definition send :: "buffer \<Rightarrow> ('r, 'x) query_scheme \<Rightarrow> ('r, 'x) query_scheme" where
  "send packet s = s\<lparr>sent := sent s @ [packet]\<rparr>"

text \<open>
  What the runtime delivers: a timer fires once, unless cleared; a closed socket emits
  neither \<^verbatim>\<open>'message'\<close> nor \<^verbatim>\<open>'error'\<close>; the callback of a \<^verbatim>\<open>send\<close> is called
  with the error of its address lookup whether or not the socket was closed meanwhile.
\<close>

definition delivered :: "('r, 'x) query_scheme \<Rightarrow> event \<Rightarrow> bool" where
  "delivered s e =
     (case e of
        TimerFired \<Rightarrow> timer_on s
      | SendFailed \<Rightarrow> True
      | Message _ \<Rightarrow> closes s = 0
      | SocketError \<Rightarrow> closes s = 0)"

definition infoPacket :: buffer where
  "infoPacket = [0xFF, 0xFF, 0xFF, 0xFF, 0x54] @ ascii ''Source Engine Query'' @ [0x00]"

definition challengePacket :: buffer where
  "challengePacket = [0xFF, 0xFF, 0xFF, 0xFF, 0x55, 0xFF, 0xFF, 0xFF, 0xFF]"

definition playerPacket :: "buffer \<Rightarrow> buffer" where
  "playerPacket challenge = [0xFF, 0xFF, 0xFF, 0xFF, 0x55] @ challenge"

subsection \<open>\<^verbatim>\<open>getServerInfo\<close> and \<^verbatim>\<open>getPlayers\<close> of \<^verbatim>\<open>src/server.js\<close>\<close>

definition getServerInfo_init :: "ServerInfo query" where
  "getServerInfo_init =
     \<lparr>closes = 0, timers = 1, timer_on = True, sent = [infoPacket], outcome = None\<rparr>"

definition getServerInfo_on :: "ServerInfo query \<Rightarrow> event \<Rightarrow> ServerInfo query" where
  "getServerInfo_on s e =
     (case e of
        TimerFired \<Rightarrow> settle (Inl Timeout) (close (s\<lparr>timer_on := False\<rparr>))
      | SendFailed \<Rightarrow> settle (Inl Network) (close (clearTimeout s))
      | Message data \<Rightarrow> settle (parseServerInfo data) (close (clearTimeout s))
      | SocketError \<Rightarrow> settle (Inl Network) (close (clearTimeout s)))"

record gp_state = "PlayerEntry list query" +
  challengeReceived :: bool

definition getPlayers_init :: gp_state where
  "getPlayers_init =
     \<lparr>closes = 0, timers = 1, timer_on = True, sent = [challengePacket], outcome = None,
      challengeReceived = False\<rparr>"

definition getPlayers_on :: "gp_state \<Rightarrow> event \<Rightarrow> gp_state" where
  "getPlayers_on s e =
     (case e of
        TimerFired \<Rightarrow> settle (Inl Timeout) (close (s\<lparr>timer_on := False\<rparr>))
      | SendFailed \<Rightarrow> settle (Inl Network) (close (clearTimeout s))
      | Message data \<Rightarrow>
          if \<not> challengeReceived s \<and> length data \<ge> 9
          then send (playerPacket (slice data 5 9)) (s\<lparr>challengeReceived := True\<rparr>)
          else settle (parsePlayerInfo data) (close (clearTimeout s))
      | SocketError \<Rightarrow> settle (Inl Network) (close (clearTimeout s)))"

subsection \<open>\<^verbatim>\<open>queryServer\<close> and \<^verbatim>\<open>queryPlayers\<close> of \<^verbatim>\<open>src/unnamed/part_000\<close>\<close>

text \<open>Here every callback is guarded by the flag \<^verbatim>\<open>resolved\<close>.\<close>

record qs_state = "A2SInfo query" +
  resolved :: bool

definition queryServer_init :: qs_state where
  "queryServer_init =
     \<lparr>closes = 0, timers = 1, timer_on = True, sent = [infoPacket], outcome = None,
      resolved = False\<rparr>"

definition queryServer_on :: "qs_state \<Rightarrow> event \<Rightarrow> qs_state" where
  "queryServer_on s e =
     (if resolved s then (case e of TimerFired \<Rightarrow> s\<lparr>timer_on := False\<rparr> | _ \<Rightarrow> s)
      else
        (case e of
           TimerFired \<Rightarrow>
             settle (Inl Timeout) (close (s\<lparr>timer_on := False, resolved := True\<rparr>))
         | SendFailed \<Rightarrow> settle (Inl Network) (close (clearTimeout (s\<lparr>resolved := True\<rparr>)))
         | Message msg \<Rightarrow>
             settle (parseA2SInfo msg) (close (clearTimeout (s\<lparr>resolved := True\<rparr>)))
         | SocketError \<Rightarrow>
             settle (Inl Network) (close (clearTimeout (s\<lparr>resolved := True\<rparr>)))))"

datatype step = step_challenge | step_players

record qp_state = "PlayerEntry list query" +
  qp_resolved :: bool
  qp_step :: step

definition queryPlayers_init :: qp_state where
  "queryPlayers_init =
     \<lparr>closes = 0, timers = 1, timer_on = True, sent = [challengePacket], outcome = None,
      qp_resolved = False, qp_step = step_challenge\<rparr>"

definition queryPlayers_on :: "qp_state \<Rightarrow> event \<Rightarrow> qp_state" where
  "queryPlayers_on s e =
     (if qp_resolved s then (case e of TimerFired \<Rightarrow> s\<lparr>timer_on := False\<rparr> | _ \<Rightarrow> s)
      else
        (case e of
           TimerFired \<Rightarrow>
             settle (Inl Timeout) (close (s\<lparr>timer_on := False, qp_resolved := True\<rparr>))
         | SendFailed \<Rightarrow>
             settle (Inl Network) (close (clearTimeout (s\<lparr>qp_resolved := True\<rparr>)))
         | Message msg \<Rightarrow>
             (case qp_step s of
                step_challenge \<Rightarrow>
                  if length msg \<ge> 9 \<and> at msg 4 = Some 0x41
                  then send (playerPacket (slice msg 5 9)) (s\<lparr>qp_step := step_players\<rparr>)
                  else settle (Inl ChallengeRejected)
                         (close (clearTimeout (s\<lparr>qp_resolved := True\<rparr>)))
              | step_players \<Rightarrow>
                  settle (parseA2SPlayers msg)
                    (close (clearTimeout (s\<lparr>qp_resolved := True\<rparr>))))
         | SocketError \<Rightarrow>
             settle (Inl Network) (close (clearTimeout (s\<lparr>qp_resolved := True\<rparr>)))))"

text \<open>Running a query: each event the runtime delivers runs its callback.\<close>

definition run :: "('s \<Rightarrow> event \<Rightarrow> bool) \<Rightarrow> ('s \<Rightarrow> event \<Rightarrow> 's) \<Rightarrow> 's \<Rightarrow> event list \<Rightarrow> 's" where
  "run dlv on s es = foldl (\<lambda>s e. if dlv s e then on s e else s) s es"

definition getServerInfo_run :: "event list \<Rightarrow> ServerInfo query" where
  "getServerInfo_run = run delivered getServerInfo_on getServerInfo_init"

definition getPlayers_run :: "event list \<Rightarrow> gp_state" where
  "getPlayers_run = run delivered getPlayers_on getPlayers_init"

definition queryServer_run :: "event list \<Rightarrow> qs_state" where
  "queryServer_run = run delivered queryServer_on queryServer_init"

definition queryPlayers_run :: "event list \<Rightarrow> qp_state" where
  "queryPlayers_run = run delivered queryPlayers_on queryPlayers_init"

section \<open>The batch handlers\<close>

text \<open>
  The exchanges with the servers are the environment of a batch: \<open>info k\<close> and
  \<open>plrs k\<close> are the events the runtime delivers, while the batch runs, to the two
  queries for the server at position \<open>k\<close> of the request. \<^verbatim>\<open>Promise.all\<close> gives the
  values of its promises in the order of the promises, and rejects when one of them does.
\<close>

record 'i QuerySpec =
  sp_id :: 'i
  sp_ip :: string
  sp_port :: nat

text \<open>
  \<^verbatim>\<open>client.send\<close> checks the port before anything else and throws
  \<^verbatim>\<open>ERR_SOCKET_BAD_PORT\<close> unless it is an integer from 1 to 65535.
\<close>

definition sendable :: "nat \<Rightarrow> bool" where
  "sendable port \<longleftrightarrow> 0 < port \<and> port < 65536"

text \<open>
  How a call whose first \<^verbatim>\<open>send\<close> went out ends: as it has settled or, while the
  events have left it unsettled, with the \<^verbatim>\<open>Timeout\<close> of its timer, which is armed
  then and fires.
\<close>

definition settles :: "('r, 'x) query_scheme \<Rightarrow> QueryError + 'r" where
  "settles s = (case outcome s of Some r \<Rightarrow> r | None \<Rightarrow> Inl Timeout)"

subsection \<open>\<^verbatim>\<open>POST /query-batch\<close> of \<^verbatim>\<open>src/server.js\<close>\<close>

text \<open>
  The executors of \<^verbatim>\<open>getServerInfo\<close> and \<^verbatim>\<open>getPlayers\<close> wrap \<^verbatim>\<open>client.send\<close> in
  \<^verbatim>\<open>try\<close>: when it throws, the \<^verbatim>\<open>catch\<close> clears the timer, closes the socket and
  rejects with the error, before any callback is registered. The callbacks run outside
  that \<^verbatim>\<open>try\<close>: a \<^verbatim>\<open>client.close()\<close> on the closed socket throws
  \<^verbatim>\<open>ERR_SOCKET_DGRAM_NOT_RUNNING\<close> from the callback, which nothing catches, and an
  uncaught exception ends the process.
\<close>

datatype 'v process = Returns 'v | Uncaught

definition getServerInfo :: "nat \<Rightarrow> event list \<Rightarrow> (QueryError + ServerInfo) process" where
  "getServerInfo port es =
     (if \<not> sendable port then Returns (Inl Network)
      else if closes (getServerInfo_run es) > 1 then Uncaught
      else Returns (settles (getServerInfo_run es)))"

definition getPlayers :: "nat \<Rightarrow> event list \<Rightarrow> (QueryError + PlayerEntry list) process" where
  "getPlayers port es =
     (if \<not> sendable port then Returns (Inl Network)
      else if closes (getPlayers_run es) > 1 then Uncaught
      else Returns (settles (getPlayers_run es)))"

text \<open>\<^verbatim>\<open>errors\<close> starts as \<^verbatim>\<open>{}\<close>: a key is set only by the \<^verbatim>\<open>catch\<close> of its query.\<close>

record 'i BatchResult =
  br_id :: 'i
  br_ip :: string
  br_port :: nat
  br_serverInfo :: "ServerInfo option"
  br_players :: "PlayerEntry list option"
  br_errors_serverInfo :: "QueryError option"
  br_errors_players :: "QueryError option"

definition BATCH_SIZE :: nat where
  "BATCH_SIZE = 5"

text \<open>The object built by the callback of \<^verbatim>\<open>batch.map\<close> from how its two awaits settle.\<close>

definition batch_item ::
  "QueryError + ServerInfo \<Rightarrow> QueryError + PlayerEntry list \<Rightarrow> 'i QuerySpec \<Rightarrow> 'i BatchResult"
where
  "batch_item info_r plrs_r server =
     (let result = \<lparr>br_id = sp_id server, br_ip = sp_ip server, br_port = sp_port server,
                     br_serverInfo = None, br_players = None,
                     br_errors_serverInfo = None, br_errors_players = None\<rparr>;
          result = (case info_r of
                      Inr v \<Rightarrow> result\<lparr>br_serverInfo := Some v\<rparr>
                    | Inl err \<Rightarrow> result\<lparr>br_errors_serverInfo := Some err\<rparr>);
          result = (case plrs_r of
                      Inr v \<Rightarrow> result\<lparr>br_players := Some v\<rparr>
                    | Inl err \<Rightarrow> result\<lparr>br_errors_players := Some err\<rparr>)
      in result)"

text \<open>The callback of \<^verbatim>\<open>batch.map\<close>: the two queries one after the other.\<close>

definition batch_promise ::
  "event list \<Rightarrow> event list \<Rightarrow> 'i QuerySpec \<Rightarrow> 'i BatchResult process"
where
  "batch_promise ies pes server =
     (case getServerInfo (sp_port server) ies of
        Uncaught \<Rightarrow> Uncaught
      | Returns info_r \<Rightarrow>
          (case getPlayers (sp_port server) pes of
             Uncaught \<Rightarrow> Uncaught
           | Returns plrs_r \<Rightarrow> Returns (batch_item info_r plrs_r server)))"

text \<open>
  \<^verbatim>\<open>await Promise.all(batchPromises)\<close>: the values in the order of the promises,
  unless the process has ended.
\<close>

fun await_all :: "'v process list \<Rightarrow> 'v list process" where
  "await_all [] = Returns []"
| "await_all (Uncaught # ps) = Uncaught"
| "await_all (Returns v # ps) =
     (case await_all ps of Uncaught \<Rightarrow> Uncaught | Returns vs \<Rightarrow> Returns (v # vs))"

function batch_loop ::
  "(nat \<Rightarrow> event list) \<Rightarrow> (nat \<Rightarrow> event list) \<Rightarrow>
   'i QuerySpec list \<Rightarrow> nat \<Rightarrow> 'i BatchResult list \<Rightarrow> 'i BatchResult list process"
where
  "batch_loop info plrs servers i results =
     (if i < length servers then
        (let batch = slice servers i (i + BATCH_SIZE);
             batchPromises = map (\<lambda>(k, server). batch_promise (info k) (plrs k) server)
                               (zip [i ..< i + length batch] batch)
         in case await_all batchPromises of
              Uncaught \<Rightarrow> Uncaught
            | Returns batchResults \<Rightarrow>
                batch_loop info plrs servers (i + BATCH_SIZE) (results @ batchResults))
      else Returns results)"
  by pat_completeness auto
termination
  by (relation "measure (\<lambda>(info, plrs, servers, i, results). length servers - i)")
     (auto simp: BATCH_SIZE_def)

declare batch_loop.simps [simp del]

text \<open>The handler: \<^verbatim>\<open>res.json({ results })\<close> is reached when the loop returns.\<close>

definition query_batch ::
  "(nat \<Rightarrow> event list) \<Rightarrow> (nat \<Rightarrow> event list) \<Rightarrow>
   'i QuerySpec list \<Rightarrow> 'i BatchResult list process"
where
  "query_batch info plrs servers = batch_loop info plrs servers 0 []"

subsection \<open>\<^verbatim>\<open>POST /query-batch\<close> of \<^verbatim>\<open>src/unnamed/part_000\<close>\<close>

text \<open>
  Here the callbacks only resolve, to \<^verbatim>\<open>{success, data}\<close> or \<^verbatim>\<open>{success, error}\<close>,
  and every callback is guarded. But the executors of \<^verbatim>\<open>queryServer\<close> and
  \<^verbatim>\<open>queryPlayers\<close> call \<^verbatim>\<open>client.send\<close> outside any \<^verbatim>\<open>try\<close>: when it throws, the
  promise is rejected.
\<close>

datatype 'v promise = Fulfilled 'v | Rejected

definition queryServer :: "nat \<Rightarrow> event list \<Rightarrow> (QueryError + A2SInfo) promise" where
  "queryServer port es =
     (if \<not> sendable port then Rejected else Fulfilled (settles (queryServer_run es)))"

definition queryPlayers :: "nat \<Rightarrow> event list \<Rightarrow> (QueryError + PlayerEntry list) promise" where
  "queryPlayers port es =
     (if \<not> sendable port then Rejected else Fulfilled (settles (queryPlayers_run es)))"

record 'i A2SBatchResult =
  ar_id :: 'i
  ar_ip :: string
  ar_port :: nat
  ar_serverInfo :: "A2SInfo option"
  ar_players :: "PlayerEntry list"
  ar_errors_serverInfo :: "QueryError option"
  ar_errors_players :: "QueryError option"

definition concurrency :: nat where
  "concurrency = 10"

text \<open>The object returned by the callback of \<^verbatim>\<open>batch.map\<close>; a failed player query gives
  the empty list.\<close>

definition a2s_batch_item ::
  "QueryError + A2SInfo \<Rightarrow> QueryError + PlayerEntry list \<Rightarrow> 'i QuerySpec \<Rightarrow>
   'i A2SBatchResult"
where
  "a2s_batch_item serverInfo playerInfo server =
     \<lparr>ar_id = sp_id server, ar_ip = sp_ip server, ar_port = sp_port server,
      ar_serverInfo = (case serverInfo of Inr d \<Rightarrow> Some d | Inl _ \<Rightarrow> None),
      ar_players = (case playerInfo of Inr d \<Rightarrow> d | Inl _ \<Rightarrow> []),
      ar_errors_serverInfo = (case serverInfo of Inr _ \<Rightarrow> None | Inl err \<Rightarrow> Some err),
      ar_errors_players = (case playerInfo of Inr _ \<Rightarrow> None | Inl err \<Rightarrow> Some err)\<rparr>"

text \<open>
  The callback of \<^verbatim>\<open>batch.map\<close>: \<^verbatim>\<open>await Promise.all\<close> of the two queries, with no
  \<^verbatim>\<open>try\<close> around it, so a rejection of either rejects the callback's promise.
\<close>

definition a2s_batch_promise ::
  "event list \<Rightarrow> event list \<Rightarrow> 'i QuerySpec \<Rightarrow> 'i A2SBatchResult promise"
where
  "a2s_batch_promise ies pes server =
     (case queryServer (sp_port server) ies of
        Rejected \<Rightarrow> Rejected
      | Fulfilled serverInfo \<Rightarrow>
          (case queryPlayers (sp_port server) pes of
             Rejected \<Rightarrow> Rejected
           | Fulfilled playerInfo \<Rightarrow> Fulfilled (a2s_batch_item serverInfo playerInfo server)))"

fun promise_all :: "'v promise list \<Rightarrow> 'v list promise" where
  "promise_all [] = Fulfilled []"
| "promise_all (Rejected # ps) = Rejected"
| "promise_all (Fulfilled v # ps) =
     (case promise_all ps of Rejected \<Rightarrow> Rejected | Fulfilled vs \<Rightarrow> Fulfilled (v # vs))"

text \<open>
  The loop awaits each window with no \<^verbatim>\<open>try\<close>: a rejected window rejects the
  handler's promise, and \<^verbatim>\<open>res.json({ results })\<close> is not reached.
\<close>

function a2s_batch_loop ::
  "(nat \<Rightarrow> event list) \<Rightarrow> (nat \<Rightarrow> event list) \<Rightarrow>
   'i QuerySpec list \<Rightarrow> nat \<Rightarrow> 'i A2SBatchResult list \<Rightarrow> 'i A2SBatchResult list promise"
where
  "a2s_batch_loop info plrs servers i results =
     (if i < length servers then
        (let batch = slice servers i (i + concurrency);
             batchPromises = map (\<lambda>(k, server). a2s_batch_promise (info k) (plrs k) server)
                               (zip [i ..< i + length batch] batch)
         in case promise_all batchPromises of
              Rejected \<Rightarrow> Rejected
            | Fulfilled batchResults \<Rightarrow>
                a2s_batch_loop info plrs servers (i + concurrency) (results @ batchResults))
      else Fulfilled results)"
  by pat_completeness auto
termination
  by (relation "measure (\<lambda>(info, plrs, servers, i, results). length servers - i)")
     (auto simp: concurrency_def)

declare a2s_batch_loop.simps [simp del]

definition a2s_query_batch ::
  "(nat \<Rightarrow> event list) \<Rightarrow> (nat \<Rightarrow> event list) \<Rightarrow>
   'i QuerySpec list \<Rightarrow> 'i A2SBatchResult list promise"
where
  "a2s_query_batch info plrs servers = a2s_batch_loop info plrs servers 0 []"

section \<open>The vocabulary of the statements\<close>

subsection \<open>Player entries as the protocol lays them out\<close>

text \<open>
  A player entry on the wire is an index byte, the bytes of a name, the terminator, and
  eight bytes: a little-endian signed score and a little-endian float. It is complete
  when the name holds no terminator and all eight bytes are there.
\<close>

type_synonym wire_entry = "byte \<times> buffer \<times> buffer"

definition wire :: "wire_entry \<Rightarrow> buffer" where
  "wire e = (case e of (ix, nm, fs) \<Rightarrow> ix # nm @ 0 # fs)"

definition complete :: "wire_entry \<Rightarrow> bool" where
  "complete e = (case e of (ix, nm, fs) \<Rightarrow> 0 \<notin> set nm \<and> length fs = 8)"

definition entry_of :: "wire_entry \<Rightarrow> PlayerEntry" where
  "entry_of e =
     (case e of (ix, nm, fs) \<Rightarrow>
        \<lparr>index = unat ix, name = utf8 nm, score = int32le (take 4 fs),
         duration = float32le (drop 4 fs)\<rparr>)"

text \<open>A tail that is no complete entry: fewer than eight bytes follow its name.\<close>

definition truncated :: "buffer \<Rightarrow> bool" where
  "truncated t \<longleftrightarrow> length (dropWhile (\<lambda>b. b \<noteq> 0) (tl t)) < 9"

definition ascii_only :: "buffer \<Rightarrow> bool" where
  "ascii_only bs \<longleftrightarrow> list_all (\<lambda>b. unat b < 0x80) bs"




subsection \<open>Sample inputs\<close>

text \<open>The info response of the specification's scenario.\<close>

definition scenario_strings :: buffer where
  "scenario_strings =
     ascii ''My Server'' @ [0] @ ascii ''de_dust2'' @ [0] @ ascii ''csgo'' @ [0] @
     ascii ''Counter-Strike'' @ [0]"

definition scenario :: buffer where
  "scenario =
     [0xFF, 0xFF, 0xFF, 0xFF, 0x49] @ scenario_strings @ [240, 0x00, 0x10, 0x20, 0x00, 0x64, 0x6c]"

text \<open>Servers of a request: with a port that can be sent to, and with port 0.\<close>

definition spec :: "nat \<Rightarrow> nat QuerySpec" where
  "spec k = \<lparr>sp_id = k, sp_ip = ''203.0.113.7'', sp_port = 27015 + k\<rparr>"

definition port0 :: "nat \<Rightarrow> nat QuerySpec" where
  "port0 k = \<lparr>sp_id = k, sp_ip = ''203.0.113.7'', sp_port = 0\<rparr>"

subsection \<open>Invariants of the queries\<close>

text \<open>
  What holds of a query of \<^verbatim>\<open>src/unnamed/part_000\<close> after any events: one timer was
  armed; the flag \<^verbatim>\<open>resolved\<close> says whether the promise has settled; while it has
  not, the timer is armed and the socket open; once it has, the socket was closed once.
\<close>

definition guarded :: "bool \<Rightarrow> ('r, 'x) query_scheme \<Rightarrow> bool" where
  "guarded flag s \<longleftrightarrow>
     timers s = 1 \<and> (flag \<longleftrightarrow> outcome s \<noteq> None) \<and>
     (if outcome s = None then timer_on s \<and> closes s = 0
      else \<not> timer_on s \<and> closes s = 1)"

text \<open>
  What holds of a query of \<^verbatim>\<open>src/server.js\<close> after any events: one timer was armed,
  and while the promise has not settled the timer is armed and the socket open.
\<close>

definition pending_ok :: "('r, 'x) query_scheme \<Rightarrow> bool" where
  "pending_ok s \<longleftrightarrow>
     timers s = 1 \<and> (if outcome s = None then timer_on s \<and> closes s = 0 else True)"

section \<open>Scanning, slicing and decoding\<close>

lemma upt_split: "i \<le> m \<Longrightarrow> m \<le> n \<Longrightarrow> [i ..< m] @ [m ..< n] = [i ..< (n::nat)]"
  by (metis le_add_diff_inverse upt_add_eq_append)

lemma scan_past: "length data \<le> offset \<Longrightarrow> scan data offset = offset"
  by (subst scan.simps) simp

lemma scan_takeWhile:
  "offset \<le> length data \<Longrightarrow>
   scan data offset = offset + length (takeWhile (\<lambda>b. b \<noteq> 0) (drop offset data))"
proof (induction data offset rule: scan.induct)
  case (1 data offset)
  show ?case
  proof (cases "offset < length data")
    case True
    then have d: "drop offset data = data ! offset # drop (Suc offset) data"
      by (simp add: Cons_nth_drop_Suc)
    show ?thesis
      using True "1.IH" by (subst scan.simps) (simp add: d)
  next
    case False
    then show ?thesis using "1.prems" by (subst scan.simps) simp
  qed
qed

lemma takeWhile_name: "0 \<notin> set nm \<Longrightarrow> takeWhile (\<lambda>b. b \<noteq> 0) (nm @ 0 # rest) = nm"
  by (induction nm) auto

lemma scan_name:
  "0 \<notin> set nm \<Longrightarrow> scan (pre @ nm @ 0 # rest) (length pre) = length pre + length nm"
  by (simp add: scan_takeWhile takeWhile_name)

lemma slice_name: "slice (pre @ nm @ rest) (length pre) (length pre + length nm) = nm"
  by (simp add: slice_def)

lemma utf8_Nil: "utf8 [] = []"
  by (subst utf8.simps) simp


lemma utf8_ascii: "ascii_only bs \<Longrightarrow> utf8 bs = map unat bs"
proof (induction bs)
  case Nil
  show ?case by (simp add: utf8_Nil)
next
  case (Cons b bs)
  then show ?case by (subst utf8.simps) (simp add: utf16_def ascii_only_def)
qed

section \<open>The info decoders on a buffer of four strings\<close>

lemma si_readString_at:
  assumes "data = pre @ nm @ 0 # rest" "offset = length pre" "0 \<notin> set nm"
  shows "si_readString data offset = (utf8 nm, Suc (offset + length nm))"
  using slice_name [of pre nm "0 # rest"] assms by (simp add: si_readString_def scan_name)

lemma readString_at:
  assumes "data = pre @ nm @ 0 # rest" "offset = length pre" "0 \<notin> set nm"
  shows "readString data offset = utf8 nm"
  using slice_name [of pre nm "0 # rest"] assms by (simp add: readString_def scan_name)

lemma at_drop: "drop offset data = bs @ rest \<Longrightarrow> k < length bs \<Longrightarrow> at data (offset + k) = Some (bs ! k)"
proof -
  assume a: "drop offset data = bs @ rest" "k < length bs"
  then have "offset + k < length data"
    by (metis add.commute length_append length_drop less_diff_conv trans_less_add1)
  moreover have "data ! (offset + k) = drop offset data ! k"
    using calculation by (simp add: nth_drop)
  ultimately show ?thesis using a by (simp add: at_def nth_append)
qed

lemma slice_drop: "drop offset data = bs @ rest \<Longrightarrow> slice data offset (offset + length bs) = bs"
  by (metis append_eq_conv_conj slice_def take_drop add.commute)

lemma le_nat2: "le_nat [a, b] = unat a + 256 * unat b"
  by (simp add: le_nat_def)

lemma si_four_strings:
  fixes hdr rest :: buffer
  assumes z: "0 \<notin> set s1" "0 \<notin> set s2" "0 \<notin> set s3" "0 \<notin> set s4"
    and h: "length hdr = 6"
    and d: "data = hdr @ s1 @ 0 # s2 @ 0 # s3 @ 0 # s4 @ 0 # rest"
  obtains o1 o2 o3 o4 where
    "si_readString data 6 = (utf8 s1, o1)"
    "si_readString data o1 = (utf8 s2, o2)"
    "si_readString data o2 = (utf8 s3, o3)"
    "si_readString data o3 = (utf8 s4, o4)"
    "drop o4 data = rest" "length data = o4 + length rest"
proof -
  let ?o1 = "length (hdr @ s1 @ [0])"
  let ?o2 = "length (hdr @ s1 @ 0 # s2 @ [0])"
  let ?o3 = "length (hdr @ s1 @ 0 # s2 @ 0 # s3 @ [0])"
  let ?o4 = "length (hdr @ s1 @ 0 # s2 @ 0 # s3 @ 0 # s4 @ [0])"
  have "si_readString data 6 = (utf8 s1, ?o1)"
    using si_readString_at [of data hdr s1 _ 6] z h d by simp
  moreover have "si_readString data ?o1 = (utf8 s2, ?o2)"
    using si_readString_at [of data "hdr @ s1 @ [0]" s2 _ ?o1] z d by simp
  moreover have "si_readString data ?o2 = (utf8 s3, ?o3)"
    using si_readString_at [of data "hdr @ s1 @ 0 # s2 @ [0]" s3 _ ?o2] z d by simp
  moreover have "si_readString data ?o3 = (utf8 s4, ?o4)"
    using si_readString_at [of data "hdr @ s1 @ 0 # s2 @ 0 # s3 @ [0]" s4 _ ?o3] z d by simp
  moreover have "drop ?o4 data = rest"
  proof -
    have "data = (hdr @ s1 @ 0 # s2 @ 0 # s3 @ 0 # s4 @ [0]) @ rest" using d by simp
    then show ?thesis by (metis append_eq_conv_conj)
  qed
  moreover have "length data = ?o4 + length rest" using d by simp
  ultimately show thesis using that by blast
qed

lemma si_try_short:
  assumes z: "0 \<notin> set s1" "0 \<notin> set s2" "0 \<notin> set s3" "0 \<notin> set s4"
    and h: "length hdr = 6" and r: "length rest < 7"
  shows "si_try (hdr @ s1 @ 0 # s2 @ 0 # s3 @ 0 # s4 @ 0 # rest)
           = Inl ''Insufficient data for server info''"
proof -
  obtain o1 o2 o3 o4 where
    "si_readString (hdr @ s1 @ 0 # s2 @ 0 # s3 @ 0 # s4 @ 0 # rest) 6 = (utf8 s1, o1)"
    "si_readString (hdr @ s1 @ 0 # s2 @ 0 # s3 @ 0 # s4 @ 0 # rest) o1 = (utf8 s2, o2)"
    "si_readString (hdr @ s1 @ 0 # s2 @ 0 # s3 @ 0 # s4 @ 0 # rest) o2 = (utf8 s3, o3)"
    "si_readString (hdr @ s1 @ 0 # s2 @ 0 # s3 @ 0 # s4 @ 0 # rest) o3 = (utf8 s4, o4)"
    "length (hdr @ s1 @ 0 # s2 @ 0 # s3 @ 0 # s4 @ 0 # rest) = o4 + length rest"
    using si_four_strings [OF z h refl] by metis
  then show ?thesis using r by (simp add: si_try_def del: length_append)
qed

lemma si_try_full:
  assumes z: "0 \<notin> set s1" "0 \<notin> set s2" "0 \<notin> set s3" "0 \<notin> set s4"
    and h: "length hdr = 6"
  shows "si_try (hdr @ s1 @ 0 # s2 @ 0 # s3 @ 0 # s4 @ 0 # a0 # a1 # p # m # b # t # e # extra)
           = Inr \<lparr>si_name = str_or (utf8 s1) (lit ''Unknown Server''),
                   si_map = str_or (utf8 s2) (lit ''Unknown Map''),
                   si_game = str_or (utf8 s4) (lit ''Unknown Game''),
                   si_players = unat p, si_maxPlayers = unat m, si_bots = unat b,
                   si_appId = unat a0 + 256 * unat a1\<rparr>"
proof -
  define data where "data = hdr @ s1 @ 0 # s2 @ 0 # s3 @ 0 # s4 @ 0 # a0 # a1 # p # m # b # t # e # extra"
  obtain o1 o2 o3 o4 where rs:
    "si_readString data 6 = (utf8 s1, o1)"
    "si_readString data o1 = (utf8 s2, o2)"
    "si_readString data o2 = (utf8 s3, o3)"
    "si_readString data o3 = (utf8 s4, o4)"
    and dr: "drop o4 data = [a0, a1, p, m, b, t, e] @ extra"
    and len: "length data = o4 + length (a0 # a1 # p # m # b # t # e # extra)"
    using si_four_strings [OF z h data_def] by (metis append_Cons append_Nil)
  have short: "readUInt16LE data o4 = Some (unat a0 + 256 * unat a1)"
    using slice_drop [of o4 data "[a0, a1]" "p # m # b # t # e # extra"] dr len
    by (simp add: readUInt16LE_def le_nat2)
  have bytes: "at data (Suc (Suc o4)) = Some p" "at data (Suc (Suc (Suc o4))) = Some m"
    "at data (Suc (Suc (Suc (Suc o4)))) = Some b"
    using at_drop [OF dr, of "Suc (Suc 0)"] at_drop [OF dr, of "Suc (Suc (Suc 0))"]
      at_drop [OF dr, of "Suc (Suc (Suc (Suc 0)))"] by simp_all
  have ok: "\<not> o4 + 7 > length data" using len by simp
  show ?thesis
    unfolding data_def [symmetric]
    using rs short bytes ok
    by (simp add: si_try_def si_readShort_def si_readByte_def or0_def)
qed

lemma readString_unterminated:
  assumes "data = pre @ nm" "offset = length pre" "0 \<notin> set nm"
  shows "readString data offset = utf8 nm"
proof -
  have tw: "takeWhile (\<lambda>b. b \<noteq> 0) nm = nm"
    using assms(3) by (induction nm) auto
  show ?thesis using assms(1,2) by (simp add: readString_def scan_takeWhile slice_def tw)
qed

lemma readString_past: "length data \<le> offset \<Longrightarrow> readString data offset = []"
  by (simp add: readString_def scan_past slice_def utf8_Nil)

lemma a2s_short:
  fixes hdr rest :: buffer
  assumes z: "0 \<notin> set s1" "0 \<notin> set s2" "0 \<notin> set s3" "0 \<notin> set s4"
    and a: "ascii_only s1" "ascii_only s2" "ascii_only s3" "ascii_only s4"
    and h: "length hdr = 5" and r: "length rest < 8"
  shows "parseA2SInfo (hdr @ s1 @ 0 # s2 @ 0 # s3 @ 0 # s4 @ 0 # rest) =
           Inr \<lparr>a2s_name = utf8 s1, a2s_map = utf8 s2, a2s_folder = utf8 s3, a2s_game = utf8 s4,
                 a2s_players = 0, a2s_maxPlayers = 0, a2s_protocol = None,
                 a2s_serverType = None, a2s_environment = None\<rparr>"
proof -
  define data where "data = hdr @ s1 @ 0 # s2 @ 0 # s3 @ 0 # s4 @ 0 # rest"
  define o1 where "o1 = length (hdr @ s1 @ [0])"
  define o2 where "o2 = length (hdr @ s1 @ 0 # s2 @ [0])"
  define o3 where "o3 = length (hdr @ s1 @ 0 # s2 @ 0 # s3 @ [0])"
  define o4 where "o4 = length (hdr @ s1 @ 0 # s2 @ 0 # s3 @ 0 # s4 @ [0])"
  have l: "length (utf8 s1) = length s1" "length (utf8 s2) = length s2"
    "length (utf8 s3) = length s3" "length (utf8 s4) = length s4"
    using a by (simp_all add: utf8_ascii)
  have n1: "readString data 5 = utf8 s1"
    using readString_at [of data hdr s1 _ 5] z h by (simp add: data_def)
  have e1: "5 + (length (utf8 s1) + 1) = o1"
    using h l by (simp add: o1_def)
  have n2: "readString data o1 = utf8 s2"
    using readString_at [of data "hdr @ s1 @ [0]" s2 _ o1] z by (simp add: data_def o1_def)
  have e2: "o1 + (length (utf8 s2) + 1) = o2"
    using l by (simp add: o1_def o2_def)
  have n3: "readString data o2 = utf8 s3"
    using readString_at [of data "hdr @ s1 @ 0 # s2 @ [0]" s3 _ o2] z by (simp add: data_def o2_def)
  have e3: "o2 + (length (utf8 s3) + 1) = o3"
    using l by (simp add: o2_def o3_def)
  have n4: "readString data o3 = utf8 s4"
    using readString_at [of data "hdr @ s1 @ 0 # s2 @ 0 # s3 @ [0]" s4 _ o3] z
    by (simp add: data_def o3_def)
  have e4: "o3 + (length (utf8 s4) + 1) = o4"
    using l by (simp add: o3_def o4_def)
  have c: "(o4 + 8 \<le> length data) = False"
    using r by (simp add: o4_def data_def)
  show ?thesis
    unfolding data_def [symmetric] parseA2SInfo_def Let_def n1 e1 n2 e2 n3 e3 n4 e4 c
    by simp
qed

lemma parseServerInfo_rejects:
  "length data < 6 \<or> at data 4 \<noteq> Some 0x49 \<Longrightarrow>
   parseServerInfo data = Inl (MalformedResponse ''Invalid server info response'')"
  by (simp add: parseServerInfo_def)

lemma parsePlayerInfo_rejects:
  "length data < 6 \<or> at data 4 \<noteq> Some 0x44 \<Longrightarrow>
   parsePlayerInfo data = Inl (MalformedResponse ''Invalid player info response'')"
  by (simp add: parsePlayerInfo_def)

lemma parseServerInfo_accepts:
  "6 \<le> length data \<Longrightarrow> at data 4 = Some 0x49 \<Longrightarrow>
   parseServerInfo data = (case si_try data of Inl err \<Rightarrow> Inr parse_error_info | Inr info \<Rightarrow> Inr info)"
  by (simp add: parseServerInfo_def)

lemma si_try_no_RangeError: "si_try data \<noteq> Inl ''RangeError''"
  by (auto simp: si_try_def si_readShort_def readUInt16LE_def Let_def split: prod.splits option.splits if_splits)

section \<open>The info response of the scenario\<close>

lemma scenario_utf8:
  "utf8 (ascii ''y Server'') = lit ''y Server''"
  "utf8 (ascii ''My Server'') = lit ''My Server''"
  "utf8 (ascii ''de_dust2'') = lit ''de_dust2''"
  "utf8 (ascii ''csgo'') = lit ''csgo''"
  "utf8 (ascii ''Counter-Strike'') = lit ''Counter-Strike''"
  by (simp_all add: utf8_ascii ascii_only_def ascii_def lit_def)

lemma scenario_server_js:
  "parseServerInfo scenario =
     Inr \<lparr>si_name = lit ''y Server'', si_map = lit ''de_dust2'', si_game = lit ''Counter-Strike'',
           si_players = 16, si_maxPlayers = 32, si_bots = 0, si_appId = 240\<rparr>"
proof -
  have s: "scenario = [0xFF, 0xFF, 0xFF, 0xFF, 0x49, 77] @ ascii ''y Server'' @ 0 #
      ascii ''de_dust2'' @ 0 # ascii ''csgo'' @ 0 # ascii ''Counter-Strike'' @ 0 #
      240 # 0x00 # 0x10 # 0x20 # 0x00 # 0x64 # 0x6c # []"
    by (simp add: scenario_def scenario_strings_def ascii_def)
  have t: "si_try scenario =
     Inr \<lparr>si_name = lit ''y Server'', si_map = lit ''de_dust2'', si_game = lit ''Counter-Strike'',
           si_players = 16, si_maxPlayers = 32, si_bots = 0, si_appId = 240\<rparr>"
    unfolding s
    by (subst si_try_full) (simp_all add: scenario_utf8, simp_all add: ascii_def lit_def str_or_def)
  have hd: "6 \<le> length scenario" "at scenario 4 = Some 0x49"
    by (simp_all add: scenario_def at_def)
  show ?thesis using t hd by (simp add: parseServerInfo_accepts)
qed

lemma scenario_with_protocol_byte:
  "parseServerInfo ([0xFF, 0xFF, 0xFF, 0xFF, 0x49, 0x11] @ scenario_strings @
      [240, 0x00, 0x10, 0x20, 0x00, 0x64, 0x6c]) =
     Inr \<lparr>si_name = lit ''My Server'', si_map = lit ''de_dust2'', si_game = lit ''Counter-Strike'',
           si_players = 16, si_maxPlayers = 32, si_bots = 0, si_appId = 240\<rparr>"
proof -
  let ?d = "[0xFF, 0xFF, 0xFF, 0xFF, 0x49, 0x11] @ scenario_strings @
      [240, 0x00, 0x10, 0x20, 0x00, 0x64, 0x6c]"
  have s: "?d = [0xFF, 0xFF, 0xFF, 0xFF, 0x49, 0x11] @ ascii ''My Server'' @ 0 #
      ascii ''de_dust2'' @ 0 # ascii ''csgo'' @ 0 # ascii ''Counter-Strike'' @ 0 #
      240 # 0x00 # 0x10 # 0x20 # 0x00 # 0x64 # 0x6c # []"
    by (simp add: scenario_strings_def)
  have t: "si_try ?d =
     Inr \<lparr>si_name = lit ''My Server'', si_map = lit ''de_dust2'', si_game = lit ''Counter-Strike'',
           si_players = 16, si_maxPlayers = 32, si_bots = 0, si_appId = 240\<rparr>"
    unfolding s
    by (subst si_try_full) (simp_all add: scenario_utf8, simp_all add: ascii_def lit_def str_or_def)
  have hd: "6 \<le> length ?d" "at ?d 4 = Some 0x49"
    by (simp_all add: at_def)
  show ?thesis using t hd by (simp add: parseServerInfo_accepts)
qed

lemma scenario_part_000:
  "parseA2SInfo scenario =
     Inr \<lparr>a2s_name = lit ''My Server'', a2s_map = lit ''de_dust2'', a2s_folder = lit ''csgo'',
           a2s_game = lit ''Counter-Strike'', a2s_players = 0, a2s_maxPlayers = 0,
           a2s_protocol = None, a2s_serverType = None, a2s_environment = None\<rparr>"
proof -
  have s2: "scenario = [0xFF, 0xFF, 0xFF, 0xFF, 0x49] @ ascii ''My Server'' @ 0 #
      ascii ''de_dust2'' @ 0 # ascii ''csgo'' @ 0 # ascii ''Counter-Strike'' @ 0 #
      [240, 0x00, 0x10, 0x20, 0x00, 0x64, 0x6c]"
    by (simp add: scenario_def scenario_strings_def)
  show ?thesis
    unfolding s2
    by (subst a2s_short) (simp_all add: scenario_utf8, simp_all add: ascii_def ascii_only_def)
qed

text \<open>
  C3, as the code has it. On the scenario's buffer \<^verbatim>\<open>parseServerInfo\<close> skips the byte
  at offset 5 as the protocol byte, so the name is \<^verbatim>\<open>"y Server"\<close>, and returns the
  seven fields \<^verbatim>\<open>name, map, game, players, maxPlayers, bots, appId\<close> with map
  \<^verbatim>\<open>"de_dust2"\<close>, game \<^verbatim>\<open>"Counter-Strike"\<close>, appId 240, players 16, maxPlayers 32
  and bots 0; with a protocol byte at offset 5 the name is \<^verbatim>\<open>"My Server"\<close>.
  \<^verbatim>\<open>parseA2SInfo\<close> returns the four strings with players 0 and maxPlayers 0, since
  fewer than eight bytes follow them.
\<close>

theorem scenario_decodes:
  "parseServerInfo scenario =
     Inr \<lparr>si_name = lit ''y Server'', si_map = lit ''de_dust2'', si_game = lit ''Counter-Strike'',
           si_players = 16, si_maxPlayers = 32, si_bots = 0, si_appId = 240\<rparr> \<and>
   parseServerInfo ([0xFF, 0xFF, 0xFF, 0xFF, 0x49, 0x11] @ scenario_strings @
      [240, 0x00, 0x10, 0x20, 0x00, 0x64, 0x6c]) =
     Inr \<lparr>si_name = lit ''My Server'', si_map = lit ''de_dust2'', si_game = lit ''Counter-Strike'',
           si_players = 16, si_maxPlayers = 32, si_bots = 0, si_appId = 240\<rparr> \<and>
   parseA2SInfo scenario =
     Inr \<lparr>a2s_name = lit ''My Server'', a2s_map = lit ''de_dust2'', a2s_folder = lit ''csgo'',
           a2s_game = lit ''Counter-Strike'', a2s_players = 0, a2s_maxPlayers = 0,
           a2s_protocol = None, a2s_serverType = None, a2s_environment = None\<rparr>"
  using scenario_server_js scenario_with_protocol_byte scenario_part_000 by simp

text \<open>
  C3 as stated fails: \<^verbatim>\<open>parseServerInfo\<close> does not give the name \<^verbatim>\<open>"My Server"\<close>
  and \<^verbatim>\<open>parseA2SInfo\<close> does not give 16 players of 32.
\<close>

theorem scenario_not_as_specified:
  "\<not> (\<exists>info. parseServerInfo scenario = Inr info \<and> si_name info = lit ''My Server'') \<and>
   \<not> (\<exists>info. parseA2SInfo scenario = Inr info \<and> a2s_players info = 16 \<and>
          a2s_maxPlayers info = 32)"
  by (simp add: scenario_server_js scenario_part_000 lit_def)

section \<open>Truncated info responses and the header check\<close>

lemma parseServerInfo_total:
  "6 \<le> length data \<Longrightarrow> at data 4 = Some 0x49 \<Longrightarrow> \<exists>info. parseServerInfo data = Inr info"
  by (simp add: parseServerInfo_accepts split: sum.splits)

lemma parseServerInfo_error_iff:
  "parseServerInfo data = Inl e \<longleftrightarrow>
     (length data < 6 \<or> at data 4 \<noteq> Some 0x49) \<and>
     e = MalformedResponse ''Invalid server info response''"
  by (auto simp: parseServerInfo_def split: sum.splits)

lemma parse_error_info_short:
  assumes z: "0 \<notin> set s1" "0 \<notin> set s2" "0 \<notin> set s3" "0 \<notin> set s4"
    and h: "length hdr = 5" "hdr ! 4 = 0x49" and r: "length rest < 7"
  shows "parseServerInfo (hdr @ p # s1 @ 0 # s2 @ 0 # s3 @ 0 # s4 @ 0 # rest) = Inr parse_error_info"
proof -
  have t: "si_try ((hdr @ [p]) @ s1 @ 0 # s2 @ 0 # s3 @ 0 # s4 @ 0 # rest)
             = Inl ''Insufficient data for server info''"
    using h by (intro si_try_short z r) simp
  have a: "at (hdr @ p # s1 @ 0 # s2 @ 0 # s3 @ 0 # s4 @ 0 # rest) 4 = Some 0x49"
    using h by (simp add: at_def nth_append)
  show ?thesis using t a h by (simp add: parseServerInfo_accepts)
qed

lemma si_try_header_only:
  "si_try [0xFF, 0xFF, 0xFF, 0xFF, 0x49, 0x11] = Inl ''Insufficient data for server info''"
  by (simp add: si_try_def si_readString_def scan_past slice_def utf8_Nil)

lemma a2s_info_short_buffer:
  "parseA2SInfo [0xFF, 0xFF, 0xFF] =
     Inr \<lparr>a2s_name = [], a2s_map = [], a2s_folder = [], a2s_game = [],
           a2s_players = 0, a2s_maxPlayers = 0, a2s_protocol = None,
           a2s_serverType = None, a2s_environment = None\<rparr>"
  by (simp add: parseA2SInfo_def readString_past)

lemma a2s_info_wrong_tag:
  "parseA2SInfo [0xFF, 0xFF, 0xFF, 0xFF, 0x41, 0x4B, 0x61, 0x6C, 0x21] =
     Inr \<lparr>a2s_name = lit ''Kal!'', a2s_map = [], a2s_folder = [], a2s_game = [],
           a2s_players = 0, a2s_maxPlayers = 0, a2s_protocol = None,
           a2s_serverType = None, a2s_environment = None\<rparr>"
proof -
  let ?d = "[0xFF, 0xFF, 0xFF, 0xFF, 0x41, 0x4B, 0x61, 0x6C, 0x21] :: buffer"
  have n: "readString ?d 5 = [75, 97, 108, 33]"
    using readString_unterminated [of _ "[0xFF, 0xFF, 0xFF, 0xFF, 0x41]" "[0x4B, 0x61, 0x6C, 0x21]" 5]
    by (simp add: utf8_ascii ascii_only_def)
  have p: "readString ?d 10 = []" "readString ?d 11 = []" "readString ?d 12 = []"
    by (simp_all add: readString_past)
  show ?thesis
    by (simp add: parseA2SInfo_def Let_def n p lit_def)
qed

text \<open>
  C5, as the code has it. Take a buffer of a 5-byte header with type tag \<open>0x49\<close>
  followed by four terminated strings and the bytes \<open>rest\<close>. In \<^verbatim>\<open>src/server.js\<close>,
  where one more byte precedes the strings, fewer than seven bytes of \<open>rest\<close> give the
  object of the \<^verbatim>\<open>catch\<close> block: every numeric field zero, name \<^verbatim>\<open>'Parse Error'\<close>,
  map and game \<^verbatim>\<open>'Unknown'\<close>. In \<^verbatim>\<open>src/unnamed/part_000\<close>, for ASCII strings, fewer
  than eight bytes give the four strings with players and maxPlayers zero and no later
  field. \<^verbatim>\<open>parseServerInfo\<close> returns a value for every buffer of at least six bytes
  with the tag, and fails exactly when the buffer has fewer than six bytes or another
  tag.
\<close>

theorem truncated_info_defaults:
  assumes "0 \<notin> set sa" "0 \<notin> set sb" "0 \<notin> set sc" "0 \<notin> set sd"
    and "length hdr = 5" "hdr ! 4 = 0x49"
  shows
    "(length rest < 7 \<longrightarrow>
        parseServerInfo (hdr @ p # sa @ 0 # sb @ 0 # sc @ 0 # sd @ 0 # rest) =
          Inr \<lparr>si_name = lit ''Parse Error'', si_map = lit ''Unknown'',
                si_game = lit ''Unknown'', si_players = 0, si_maxPlayers = 0, si_bots = 0,
                si_appId = 0\<rparr>) \<and>
     (length rest < 8 \<and> ascii_only sa \<and> ascii_only sb \<and> ascii_only sc \<and> ascii_only sd \<longrightarrow>
        parseA2SInfo (hdr @ sa @ 0 # sb @ 0 # sc @ 0 # sd @ 0 # rest) =
          Inr \<lparr>a2s_name = utf8 sa, a2s_map = utf8 sb, a2s_folder = utf8 sc,
                a2s_game = utf8 sd, a2s_players = 0, a2s_maxPlayers = 0,
                a2s_protocol = None, a2s_serverType = None, a2s_environment = None\<rparr>) \<and>
     (6 \<le> length data \<and> at data 4 = Some 0x49 \<longrightarrow> (\<exists>info. parseServerInfo data = Inr info)) \<and>
     (parseServerInfo data = Inl e \<longleftrightarrow>
        (length data < 6 \<or> at data 4 \<noteq> Some 0x49) \<and>
        e = MalformedResponse ''Invalid server info response'')"
  using assms parse_error_info_short [of sa sb sc sd hdr rest p]
    a2s_short [of sa sb sc sd hdr rest] parseServerInfo_total [of data]
    parseServerInfo_error_iff [of data e]
  by (simp add: parse_error_info_def)

theorem truncated_info_defaults_witness:
  "parseServerInfo ([0xFF, 0xFF, 0xFF, 0xFF, 0x49, 0x11, 0x41, 0, 0x42, 0, 0x43, 0, 0x44, 0, 0xF0, 0, 0x10]) =
     Inr \<lparr>si_name = lit ''Parse Error'', si_map = lit ''Unknown'',
           si_game = lit ''Unknown'', si_players = 0, si_maxPlayers = 0, si_bots = 0,
           si_appId = 0\<rparr> \<and>
   parseA2SInfo ([0xFF, 0xFF, 0xFF, 0xFF, 0x49, 0x41, 0, 0x42, 0, 0x43, 0, 0x44, 0, 0xF0, 0, 0x10]) =
     Inr \<lparr>a2s_name = [0x41], a2s_map = [0x42], a2s_folder = [0x43],
           a2s_game = [0x44], a2s_players = 0, a2s_maxPlayers = 0,
           a2s_protocol = None, a2s_serverType = None, a2s_environment = None\<rparr> \<and>
   (\<exists>info. parseServerInfo [0xFF, 0xFF, 0xFF, 0xFF, 0x49, 0x11] = Inr info)"
  using truncated_info_defaults
    [where sa = "[0x41]" and sb = "[0x42]" and sc = "[0x43]" and sd = "[0x44]"
       and hdr = "[0xFF, 0xFF, 0xFF, 0xFF, 0x49]" and rest = "[0xF0, 0, 0x10]" and p = "0x11"
       and data = "[0xFF, 0xFF, 0xFF, 0xFF, 0x49, 0x11]"]
  by (simp add: ascii_only_def utf8_ascii at_def)

text \<open>
  C5 as stated fails on the header alone: five bytes with the tag \<open>0x49\<close> are rejected by
  the length check of \<^verbatim>\<open>parseServerInfo\<close>.
\<close>

theorem bare_header_is_rejected:
  "\<not> (\<exists>info. parseServerInfo [0xFF, 0xFF, 0xFF, 0xFF, 0x49] = Inr info)"
  by (simp add: parseServerInfo_def)

lemma scan_ge: "offset \<le> scan data offset"
proof (induction data offset rule: scan.induct)
  case (1 data offset)
  show ?case
  proof (cases "offset < length data \<and> data ! offset \<noteq> 0")
    case True
    then show ?thesis using "1.IH" by (subst scan.simps) simp
  next
    case False
    then show ?thesis by (subst scan.simps) auto
  qed
qed

lemma si_readString_advances: "offset < snd (si_readString data offset)"
  using scan_ge [of offset data] by (simp add: si_readString_def)

lemma si_try_below_17:
  assumes "length data < 17"
  shows "si_try data = Inl ''Insufficient data for server info''"
proof -
  obtain n1 o1 where r1: "si_readString data 6 = (n1, o1)" by (cases "si_readString data 6")
  obtain n2 o2 where r2: "si_readString data o1 = (n2, o2)" by (cases "si_readString data o1")
  obtain n3 o3 where r3: "si_readString data o2 = (n3, o3)" by (cases "si_readString data o2")
  obtain n4 o4 where r4: "si_readString data o3 = (n4, o4)" by (cases "si_readString data o3")
  have "6 < o1" using si_readString_advances [of 6 data] r1 by simp
  moreover have "o1 < o2" using si_readString_advances [of o1 data] r2 by simp
  moreover have "o2 < o3" using si_readString_advances [of o2 data] r3 by simp
  moreover have "o3 < o4" using si_readString_advances [of o3 data] r4 by simp
  ultimately have "length data < o4 + 7" using assms by simp
  then show ?thesis by (simp add: si_try_def r1 r2 r3 r4)
qed

text \<open>
  C10. Once the header check of \<^verbatim>\<open>parseServerInfo\<close> passes (at least six bytes, tag
  \<open>0x49\<close>), it returns a value and no error: an exception raised in the \<^verbatim>\<open>try\<close> block
  is caught and gives the object with name \<^verbatim>\<open>'Parse Error'\<close>, map and game
  \<^verbatim>\<open>'Unknown'\<close> and every numeric field zero; otherwise the parsed object is returned.
  Every such buffer of fewer than 17 bytes gives that object: four strings end at
  offset 10 at the earliest, and seven more bytes are asked for.
\<close>

theorem parseServerInfo_never_propagates:
  assumes "6 \<le> length data" "at data 4 = Some 0x49"
  shows "(\<exists>info. parseServerInfo data = Inr info) \<and>
         (\<forall>e. parseServerInfo data \<noteq> Inl e) \<and>
         (\<forall>err. si_try data = Inl err \<longrightarrow>
            parseServerInfo data =
              Inr \<lparr>si_name = lit ''Parse Error'', si_map = lit ''Unknown'',
                    si_game = lit ''Unknown'', si_players = 0, si_maxPlayers = 0,
                    si_bots = 0, si_appId = 0\<rparr>) \<and>
         (\<forall>info. si_try data = Inr info \<longrightarrow> parseServerInfo data = Inr info) \<and>
         (length data < 17 \<longrightarrow>
            parseServerInfo data =
              Inr \<lparr>si_name = lit ''Parse Error'', si_map = lit ''Unknown'',
                    si_game = lit ''Unknown'', si_players = 0, si_maxPlayers = 0,
                    si_bots = 0, si_appId = 0\<rparr>)"
  using assms si_try_below_17 [of data]
  by (auto simp: parseServerInfo_accepts parse_error_info_def split: sum.splits)

theorem parseServerInfo_never_propagates_witness:
  "6 \<le> length [0xFF, 0xFF, 0xFF, 0xFF, 0x49, 0x11 :: byte] \<and>
   si_try [0xFF, 0xFF, 0xFF, 0xFF, 0x49, 0x11] = Inl ''Insufficient data for server info'' \<and>
   parseServerInfo [0xFF, 0xFF, 0xFF, 0xFF, 0x49, 0x11] =
     Inr \<lparr>si_name = lit ''Parse Error'', si_map = lit ''Unknown'',
           si_game = lit ''Unknown'', si_players = 0, si_maxPlayers = 0,
           si_bots = 0, si_appId = 0\<rparr>"
  using parseServerInfo_never_propagates [of "[0xFF, 0xFF, 0xFF, 0xFF, 0x49, 0x11]"]
    si_try_header_only
  by (simp add: at_def)

text \<open>
  C2 at the inputs where the code departs from it. The decoders of
  \<^verbatim>\<open>src/unnamed/part_000\<close> check neither the length nor the type tag: three bytes, and
  a challenge response given to the info decoder, decode to a value, and an info
  response given to the player decoder decodes to the empty list. The decoders of
  \<^verbatim>\<open>src/server.js\<close> reject the same buffers.
\<close>

theorem part_000_decoders_do_not_validate:
  "parseA2SInfo [0xFF, 0xFF, 0xFF] =
     Inr \<lparr>a2s_name = [], a2s_map = [], a2s_folder = [], a2s_game = [],
           a2s_players = 0, a2s_maxPlayers = 0, a2s_protocol = None,
           a2s_serverType = None, a2s_environment = None\<rparr> \<and>
   parseA2SInfo [0xFF, 0xFF, 0xFF, 0xFF, 0x41, 0x4B, 0x61, 0x6C, 0x21] =
     Inr \<lparr>a2s_name = lit ''Kal!'', a2s_map = [], a2s_folder = [], a2s_game = [],
           a2s_players = 0, a2s_maxPlayers = 0, a2s_protocol = None,
           a2s_serverType = None, a2s_environment = None\<rparr> \<and>
   parseA2SPlayers [0xFF, 0xFF, 0xFF] = Inr [] \<and>
   parseA2SPlayers [0xFF, 0xFF, 0xFF, 0xFF, 0x49, 0x00] = Inr [] \<and>
   parseServerInfo [0xFF, 0xFF, 0xFF] =
     Inl (MalformedResponse ''Invalid server info response'') \<and>
   parseServerInfo [0xFF, 0xFF, 0xFF, 0xFF, 0x41, 0x4B, 0x61, 0x6C, 0x21] =
     Inl (MalformedResponse ''Invalid server info response'') \<and>
   parsePlayerInfo [0xFF, 0xFF, 0xFF] =
     Inl (MalformedResponse ''Invalid player info response'') \<and>
   parsePlayerInfo [0xFF, 0xFF, 0xFF, 0xFF, 0x49, 0x00] =
     Inl (MalformedResponse ''Invalid player info response'')"
  by (simp add: a2s_info_short_buffer a2s_info_wrong_tag parseA2SPlayers_def a2s_loop.simps
      parseServerInfo_def parsePlayerInfo_def at_def)

section \<open>The player decoders on complete and truncated entries\<close>

lemma nth_after: "(pre @ x # rest) ! length pre = x"
  by simp

lemma read_fields:
  assumes "data = pre @ fs @ rest" "offset = length pre" "length fs = 8"
  shows "readInt32LE data offset = Some (int32le (take 4 fs))"
    and "readFloatLE data (offset + 4) = Some (float32le (drop 4 fs))"
proof -
  have a: "slice data offset (offset + 4) = take 4 fs"
    using assms by (simp add: slice_def)
  have b: "slice data (offset + 4) (offset + 4 + 4) = drop 4 fs"
    using assms by (simp add: slice_def)
  show "readInt32LE data offset = Some (int32le (take 4 fs))"
    using assms a by (simp add: readInt32LE_def)
  show "readFloatLE data (offset + 4) = Some (float32le (drop 4 fs))"
    using assms b by (simp add: readFloatLE_def)
qed




lemma pi_loop_count: "n \<le> i \<Longrightarrow> pi_loop data n i offset acc = acc"
  by (subst pi_loop.simps) simp



lemma a2s_loop_step:
  assumes c: "complete (ix, nm, fs)" and a: "ascii_only nm" and i: "i < n"
    and d: "data = pre @ wire (ix, nm, fs) @ rest"
  shows "a2s_loop data n i (length pre) acc =
           a2s_loop data n (Suc i) (length pre + length (wire (ix, nm, fs)))
             (acc @ [entry_of (ix, nm, fs)])"
proof -
  have z: "0 \<notin> set nm" and f: "length fs = 8"
    using c by (simp_all add: complete_def)
  define off where "off = length pre"
  define e where "e = Suc off + (length nm + 1)"
  have lt: "off < length data" using d by (simp add: off_def wire_def)
  have ix: "data ! off = ix" using d by (simp add: off_def wire_def)
  have rs: "readString data (Suc off) = utf8 nm"
    using readString_at [of data "pre @ [ix]" nm "fs @ rest" "Suc off"] z d
    by (simp add: off_def wire_def)
  have ln: "length (utf8 nm) = length nm"
    using a by (simp add: utf8_ascii)
  have d2: "data = (pre @ ix # nm @ [0]) @ fs @ rest"
    using d by (simp add: wire_def)
  have el: "e = length (pre @ ix # nm @ [0])"
    by (simp add: e_def off_def)
  have rd: "readInt32LE data e = Some (int32le (take 4 fs))"
    "readFloatLE data (e + 4) = Some (float32le (drop 4 fs))"
    using read_fields [OF d2 el f] by simp_all
  have fit: "e + 8 \<le> length data"
    using f by (simp add: d2 el)
  have nxt: "off + length (wire (ix, nm, fs)) = e + 8"
    using f by (simp add: e_def wire_def)
  have en: "\<lparr>index = unat ix, name = utf8 nm, score = int32le (take 4 fs),
             duration = float32le (drop 4 fs)\<rparr> = entry_of (ix, nm, fs)"
    by (simp add: entry_of_def)
  have step: "a2s_loop data n i off acc =
      (let ix' = unat (data ! off); nm' = readString data (Suc off);
           offset2 = Suc off + (length nm' + 1)
       in if offset2 + 8 \<le> length data
          then (case readInt32LE data offset2 of None \<Rightarrow> acc
                | Some sc \<Rightarrow>
                   (case readFloatLE data (offset2 + 4) of None \<Rightarrow> acc
                    | Some du \<Rightarrow> a2s_loop data n (Suc i) (offset2 + 8)
                        (acc @ [\<lparr>index = ix', name = nm', score = sc, duration = du\<rparr>])))
          else a2s_loop data n (Suc i) offset2 acc)"
    using i lt by (subst a2s_loop.simps) simp
  show ?thesis
    unfolding off_def [symmetric] nxt step Let_def rs ln e_def [symmetric] ix
    using fit rd by (simp add: en)
qed

lemma a2s_loop_entries:
  assumes "list_all complete es" "list_all (\<lambda>e. ascii_only (fst (snd e))) es" "i + length es \<le> n"
  shows "a2s_loop (pre @ concat (map wire es) @ t) n i (length pre) acc =
           a2s_loop (pre @ concat (map wire es) @ t) n (i + length es)
             (length pre + length (concat (map wire es))) (acc @ map entry_of es)"
  using assms
proof (induction es arbitrary: pre i acc)
  case Nil
  then show ?case by simp
next
  case (Cons e es)
  obtain ix nm fs where e: "e = (ix, nm, fs)" by (cases e) auto
  have c: "complete (ix, nm, fs)" and cs: "list_all complete es"
    using Cons.prems(1) e by simp_all
  have a: "ascii_only nm" and as: "list_all (\<lambda>e. ascii_only (fst (snd e))) es"
    using Cons.prems(2) e by simp_all
  have i: "i < n" and i2: "Suc i + length es \<le> n"
    using Cons.prems(3) by simp_all
  let ?data = "pre @ concat (map wire (e # es)) @ t"
  have d: "?data = pre @ wire (ix, nm, fs) @ (concat (map wire es) @ t)"
    by (simp add: e)
  have d': "?data = (pre @ wire (ix, nm, fs)) @ concat (map wire es) @ t"
    by (simp add: e)
  have "a2s_loop ?data n i (length pre) acc =
          a2s_loop ?data n (Suc i) (length (pre @ wire (ix, nm, fs)))
            (acc @ [entry_of (ix, nm, fs)])"
    using a2s_loop_step [OF c a i d] by simp
  also have "\<dots> =
          a2s_loop ?data n (Suc i + length es)
            (length (pre @ wire (ix, nm, fs)) + length (concat (map wire es)))
            ((acc @ [entry_of (ix, nm, fs)]) @ map entry_of es)"
    unfolding d' by (rule Cons.IH [OF cs as i2])
  finally have both:
    "a2s_loop ?data n i (length pre) acc =
       a2s_loop ?data n (Suc i + length es)
         (length (pre @ wire (ix, nm, fs)) + length (concat (map wire es)))
         ((acc @ [entry_of (ix, nm, fs)]) @ map entry_of es)" .
  have tgt: "(acc @ [entry_of (ix, nm, fs)]) @ map entry_of es = acc @ map entry_of (e # es)"
    by (simp add: e)
  have off: "length (pre @ wire (ix, nm, fs)) + length (concat (map wire es)) =
      length pre + length (concat (map wire (e # es)))"
    by (simp add: e)
  have idx: "Suc i + length es = i + length (e # es)" by simp
  show ?case using both by (simp only: tgt off idx)
qed

lemma a2s_loop_count: "n \<le> i \<Longrightarrow> a2s_loop data n i offset acc = acc"
  by (subst a2s_loop.simps) simp

lemma a2s_loop_stuck: "length data < offset + 8 \<Longrightarrow> a2s_loop data n i offset acc = acc"
proof (induction data n i offset acc rule: a2s_loop.induct)
  case (1 buffer playerCount i offset players)
  show ?case
  proof (cases "i < playerCount \<and> offset < length buffer")
    case True
    define o2 where "o2 = Suc offset + (length (readString buffer (Suc offset)) + 1)"
    have far: "length buffer < o2 + 8" using "1.prems" by (simp add: o2_def)
    have "a2s_loop buffer playerCount (Suc i) o2 players = players"
      using "1.IH"(2) [OF True _ refl refl o2_def] True far by simp
    moreover have step: "a2s_loop buffer playerCount i offset players =
      (let ix' = unat (buffer ! offset); nm' = readString buffer (Suc offset);
           offset2 = Suc offset + (length nm' + 1)
       in if offset2 + 8 \<le> length buffer
          then (case readInt32LE buffer offset2 of None \<Rightarrow> players
                | Some sc \<Rightarrow>
                   (case readFloatLE buffer (offset2 + 4) of None \<Rightarrow> players
                    | Some du \<Rightarrow> a2s_loop buffer playerCount (Suc i) (offset2 + 8)
                        (players @ [\<lparr>index = ix', name = nm', score = sc, duration = du\<rparr>])))
          else a2s_loop buffer playerCount (Suc i) offset2 players)"
      using True by (subst a2s_loop.simps) simp
    ultimately show ?thesis
      unfolding step Let_def o2_def [symmetric] using far by simp
  next
    case False
    then show ?thesis by (subst a2s_loop.simps) auto
  qed
qed


lemma a2s_loop_truncated:
  assumes tr: "truncated t" and a: "ascii_only (takeWhile (\<lambda>b. b \<noteq> 0) (tl t))"
  shows "a2s_loop (pre @ t) n i (length pre) acc = acc"
proof (cases t)
  case Nil
  then show ?thesis by (subst a2s_loop.simps) simp
next
  case (Cons ix t')
  show ?thesis
  proof (cases "i < n")
    case False
    then show ?thesis by (simp add: a2s_loop_count)
  next
    case True
    define data where "data = pre @ t"
    define off where "off = length pre"
    define o2 where "o2 = Suc off + (length (readString data (Suc off)) + 1)"
    have dr: "drop (Suc off) data = t'"
      by (simp add: data_def off_def Cons)
    have sc: "scan data (Suc off) = Suc off + length (takeWhile (\<lambda>b. b \<noteq> 0) t')"
      using scan_takeWhile [of "Suc off" data] dr by (simp add: data_def off_def Cons)
    have "slice data (Suc off) (Suc off + length (takeWhile (\<lambda>b. b \<noteq> 0) t')) =
            take (length (takeWhile (\<lambda>b. b \<noteq> 0) t')) t'"
      using dr by (metis slice_def add.commute take_drop)
    also have "\<dots> = takeWhile (\<lambda>b. b \<noteq> 0) t'"
      by (metis append_eq_conv_conj takeWhile_dropWhile_id)
    finally have rs: "readString data (Suc off) = utf8 (takeWhile (\<lambda>b. b \<noteq> 0) t')"
      by (simp add: readString_def sc)
    have ln: "length (readString data (Suc off)) = length (takeWhile (\<lambda>b. b \<noteq> 0) t')"
      using a by (simp add: rs utf8_ascii Cons)
    have "length t' = length (takeWhile (\<lambda>b. b \<noteq> 0) t') + length (dropWhile (\<lambda>b. b \<noteq> 0) t')"
      by (metis length_append takeWhile_dropWhile_id)
    moreover have "length (dropWhile (\<lambda>b. b \<noteq> 0) t') < 9"
      using tr by (simp add: truncated_def Cons)
    moreover have "length data = Suc off + length t'"
      by (simp add: data_def off_def Cons)
    ultimately have far: "length data < o2 + 8"
      by (simp add: o2_def ln)
    have lt: "off < length data" by (simp add: data_def off_def Cons)
    have step: "a2s_loop data n i off acc =
      (let ix' = unat (data ! off); nm' = readString data (Suc off);
           offset2 = Suc off + (length nm' + 1)
       in if offset2 + 8 \<le> length data
          then (case readInt32LE data offset2 of None \<Rightarrow> acc
                | Some sc \<Rightarrow>
                   (case readFloatLE data (offset2 + 4) of None \<Rightarrow> acc
                    | Some du \<Rightarrow> a2s_loop data n (Suc i) (offset2 + 8)
                        (acc @ [\<lparr>index = ix', name = nm', score = sc, duration = du\<rparr>])))
          else a2s_loop data n (Suc i) offset2 acc)"
      using True lt by (subst a2s_loop.simps) simp
    show ?thesis
      unfolding data_def [symmetric] off_def [symmetric] step Let_def o2_def [symmetric]
      using far a2s_loop_stuck [OF far] by simp
  qed
qed

lemma parseA2SPlayers_wire:
  assumes c: "list_all complete es" and a: "list_all (\<lambda>e. ascii_only (fst (snd e))) es"
    and n: "length es \<le> unat n"
    and stop: "length es = unat n \<or>
               truncated t \<and> ascii_only (takeWhile (\<lambda>b. b \<noteq> 0) (tl t))"
    and h: "length hdr = 5"
  shows "parseA2SPlayers (hdr @ n # concat (map wire es) @ t) = Inr (map entry_of es)"
proof -
  let ?data = "hdr @ n # concat (map wire es) @ t"
  have d: "?data = (hdr @ [n]) @ concat (map wire es) @ t" by simp
  have a5: "\<not> length ?data < 6" "?data ! 5 = n"
    using h by (simp_all add: nth_append)
  have l: "a2s_loop ?data (unat n) 0 6 [] =
             a2s_loop ?data (unat n) (length es) (6 + length (concat (map wire es)))
               (map entry_of es)"
    unfolding d using a2s_loop_entries [OF c a, of 0 "unat n" "hdr @ [n]" t "[]"] n h by simp
  have "a2s_loop ?data (unat n) (length es) (6 + length (concat (map wire es)))
          (map entry_of es) = map entry_of es"
  proof (cases "length es = unat n")
    case True
    then show ?thesis by (simp add: a2s_loop_count)
  next
    case False
    then have tr: "truncated t" "ascii_only (takeWhile (\<lambda>b. b \<noteq> 0) (tl t))"
      using stop by simp_all
    have d2: "?data = (hdr @ n # concat (map wire es)) @ t" by simp
    show ?thesis
      unfolding d2 using a2s_loop_truncated [OF tr, of "hdr @ n # concat (map wire es)"] h
      by simp
  qed
  then show ?thesis using a5 l by (simp add: parseA2SPlayers_def)
qed





lemma fields_decode:
  "int32le [0x2A, 0, 0, 0] = 42" "float32le [0, 0, 0x80, 0x3F] = 0x3F800000"
  "float_or0 0x3F800000 = 0x3F800000"
  by (simp_all add: int32le_def float32le_def le_nat_def is_nan_def float_or0_def is_zero_def)

lemma utf8_e_acute: "utf8 [0xC3, 0xA9] = [0xE9]"
  by (subst utf8.simps) (simp add: cont_def low6_def utf16_def utf8_Nil)

lemma a2s_players_non_ascii:
  "parseA2SPlayers ([0xFF, 0xFF, 0xFF, 0xFF, 0x44, 0x02] @
      wire (0x00, [0xC3, 0xA9], [0x2A, 0, 0, 0, 0, 0, 0x80, 0x3F]) @
      [0x01, 0x42, 0x00, 0x01, 0x02, 0x03]) =
     Inr [\<lparr>index = 0, name = [0xE9], score = 10752, duration = 0x80000000\<rparr>]"
proof -
  let ?d = "[0xFF, 0xFF, 0xFF, 0xFF, 0x44, 0x02, 0x00, 0xC3, 0xA9, 0x00,
             0x2A, 0, 0, 0, 0, 0, 0x80, 0x3F, 0x01, 0x42, 0x00, 0x01, 0x02, 0x03] :: buffer"
  have r1: "readString ?d 7 = [0xE9]"
    using readString_at [of ?d "[0xFF, 0xFF, 0xFF, 0xFF, 0x44, 0x02, 0x00]" "[0xC3, 0xA9]" _ 7]
    by (simp add: utf8_e_acute)
  have r2: "readString ?d 18 = [0x01, 0x42]"
    using readString_at [of ?d "[0xFF, 0xFF, 0xFF, 0xFF, 0x44, 0x02, 0x00, 0xC3, 0xA9, 0x00,
             0x2A, 0, 0, 0, 0, 0, 0x80, 0x3F]" "[0x01, 0x42]" _ 18]
    by (simp add: utf8_ascii ascii_only_def)
  have rd: "readInt32LE ?d 9 = Some 10752" "readFloatLE ?d 13 = Some 0x80000000"
    by (simp_all add: readInt32LE_def readFloatLE_def slice_def int32le_def float32le_def
        le_nat_def is_nan_def)
  have l2: "a2s_loop ?d 2 (Suc 0) 17 [\<lparr>index = 0, name = [0xE9], score = 10752, duration = 0x80000000\<rparr>]
      = [\<lparr>index = 0, name = [0xE9], score = 10752, duration = 0x80000000\<rparr>]"
    by (subst a2s_loop.simps) (simp add: r2 a2s_loop_count)
  have l1: "a2s_loop ?d 2 0 6 [] =
      [\<lparr>index = 0, name = [0xE9], score = 10752, duration = 0x80000000\<rparr>]"
    by (subst a2s_loop.simps) (simp add: r1 rd l2)
  show ?thesis by (simp add: parseA2SPlayers_def wire_def l1)
qed

text \<open>
  C4 at the inputs where the code departs from it. The response has the count 3 at
  offset 5, two complete entries and a truncated third. \<^verbatim>\<open>parsePlayerInfo\<close> of
  \<^verbatim>\<open>src/server.js\<close> sets \<^verbatim>\<open>offset = 6\<close> and reads the count with
  \<^verbatim>\<open>data[offset++]\<close>: it takes the index byte of the first entry, 0, for the count
  and returns no entry, where \<^verbatim>\<open>parseA2SPlayers\<close> of \<^verbatim>\<open>src/unnamed/part_000\<close> reads
  \<^verbatim>\<open>buffer[5]\<close> and returns the two complete entries. \<^verbatim>\<open>parseA2SPlayers\<close> in turn
  advances by \<^verbatim>\<open>name.length\<close>, the length of the decoded string: a complete entry whose
  name is two bytes of UTF-8 for one character is returned with the score and the
  duration read one byte early.
\<close>

theorem count_is_read_at_offset_6:
  "parsePlayerInfo ([0xFF, 0xFF, 0xFF, 0xFF, 0x44, 0x03] @
      wire (0x00, [0x41], [0x2A, 0, 0, 0, 0, 0, 0x80, 0x3F]) @
      wire (0x01, [0x42], [0x2A, 0, 0, 0, 0, 0, 0x80, 0x3F]) @
      [0x02, 0x43, 0x00, 0x01, 0x02, 0x03]) = Inr [] \<and>
   parseA2SPlayers ([0xFF, 0xFF, 0xFF, 0xFF, 0x44, 0x03] @
      wire (0x00, [0x41], [0x2A, 0, 0, 0, 0, 0, 0x80, 0x3F]) @
      wire (0x01, [0x42], [0x2A, 0, 0, 0, 0, 0, 0x80, 0x3F]) @
      [0x02, 0x43, 0x00, 0x01, 0x02, 0x03]) =
     Inr [\<lparr>index = 0, name = [0x41], score = 42, duration = 0x3F800000\<rparr>,
          \<lparr>index = 1, name = [0x42], score = 42, duration = 0x3F800000\<rparr>] \<and>
   parseA2SPlayers ([0xFF, 0xFF, 0xFF, 0xFF, 0x44, 0x02] @
      wire (0x00, [0xC3, 0xA9], [0x2A, 0, 0, 0, 0, 0, 0x80, 0x3F]) @
      [0x01, 0x42, 0x00, 0x01, 0x02, 0x03]) =
     Inr [\<lparr>index = 0, name = [0xE9], score = 10752, duration = 0x80000000\<rparr>] \<and>
   entry_of (0x00, [0xC3, 0xA9], [0x2A, 0, 0, 0, 0, 0, 0x80, 0x3F]) =
     \<lparr>index = 0, name = [0xE9], score = 42, duration = 0x3F800000\<rparr>"
proof -
  have s: "parsePlayerInfo ([0xFF, 0xFF, 0xFF, 0xFF, 0x44, 0x03] @
      wire (0x00, [0x41], [0x2A, 0, 0, 0, 0, 0, 0x80, 0x3F]) @
      wire (0x01, [0x42], [0x2A, 0, 0, 0, 0, 0, 0x80, 0x3F]) @
      [0x02, 0x43, 0x00, 0x01, 0x02, 0x03]) = Inr []"
    by (simp add: parsePlayerInfo_def at_def wire_def pi_loop_count)
  have p: "parseA2SPlayers ([0xFF, 0xFF, 0xFF, 0xFF, 0x44, 0x03] @
      wire (0x00, [0x41], [0x2A, 0, 0, 0, 0, 0, 0x80, 0x3F]) @
      wire (0x01, [0x42], [0x2A, 0, 0, 0, 0, 0, 0x80, 0x3F]) @
      [0x02, 0x43, 0x00, 0x01, 0x02, 0x03]) =
     Inr [\<lparr>index = 0, name = [0x41], score = 42, duration = 0x3F800000\<rparr>,
          \<lparr>index = 1, name = [0x42], score = 42, duration = 0x3F800000\<rparr>]"
    using parseA2SPlayers_wire
      [where es = "[(0x00, [0x41], [0x2A, 0, 0, 0, 0, 0, 0x80, 0x3F]),
                    (0x01, [0x42], [0x2A, 0, 0, 0, 0, 0, 0x80, 0x3F])]"
         and n = "0x03" and t = "[0x02, 0x43, 0x00, 0x01, 0x02, 0x03]"
         and hdr = "[0xFF, 0xFF, 0xFF, 0xFF, 0x44]"]
    by (simp add: complete_def truncated_def ascii_only_def entry_of_def utf8_ascii
        fields_decode)
  have e: "entry_of (0x00, [0xC3, 0xA9], [0x2A, 0, 0, 0, 0, 0, 0x80, 0x3F]) =
     \<lparr>index = 0, name = [0xE9], score = 42, duration = 0x3F800000\<rparr>"
    by (simp add: entry_of_def utf8_e_acute fields_decode)
  show ?thesis using s p e a2s_players_non_ascii by simp
qed




section \<open>The queries: timer, transport and challenge\<close>

lemma run_snoc: "run dlv on s (es @ [e]) = (if dlv (run dlv on s es) e then on (run dlv on s es) e else run dlv on s es)"
  by (simp add: run_def)

lemma run_Nil: "run dlv on s [] = s"
  by (simp add: run_def)

lemma run_Cons: "run dlv on s (e # es) = run dlv on (if dlv s e then on s e else s) es"
  by (simp add: run_def)

lemma run_invariant:
  assumes "P s" "\<And>s e. P s \<Longrightarrow> dlv s e \<Longrightarrow> P (on s e)"
  shows "P (run dlv on s es)"
  using assms(1)
proof (induction es arbitrary: s)
  case Nil
  then show ?case by (simp add: run_Nil)
next
  case (Cons e es)
  then show ?case using assms(2) by (simp add: run_Cons)
qed

lemma queryPlayers_guarded_step:
  "guarded (qp_resolved s) s \<Longrightarrow> guarded (qp_resolved (queryPlayers_on s e)) (queryPlayers_on s e)"
  by (cases e; cases "qp_step s")
     (auto simp: guarded_def queryPlayers_on_def settle_def close_def clearTimeout_def send_def
           split: option.splits if_splits)

lemma queryServer_guarded_step:
  "guarded (resolved s) s \<Longrightarrow> guarded (resolved (queryServer_on s e)) (queryServer_on s e)"
  by (cases e)
     (auto simp: guarded_def queryServer_on_def settle_def close_def clearTimeout_def
           split: option.splits if_splits)

lemma queryPlayers_guarded: "guarded (qp_resolved (queryPlayers_run es)) (queryPlayers_run es)"
  unfolding queryPlayers_run_def
  by (rule run_invariant [where P = "\<lambda>s. guarded (qp_resolved s) s"])
     (simp_all add: queryPlayers_init_def guarded_def queryPlayers_guarded_step [unfolded guarded_def])

lemma queryServer_guarded: "guarded (resolved (queryServer_run es)) (queryServer_run es)"
  unfolding queryServer_run_def
  by (rule run_invariant [where P = "\<lambda>s. guarded (resolved s) s"])
     (simp_all add: queryServer_init_def guarded_def queryServer_guarded_step [unfolded guarded_def])

lemma getPlayers_pending_step:
  "pending_ok s \<Longrightarrow> delivered s e \<Longrightarrow> pending_ok (getPlayers_on s e)"
  by (cases e)
     (auto simp: pending_ok_def getPlayers_on_def delivered_def settle_def close_def
           clearTimeout_def send_def split: option.splits if_splits)

lemma getPlayers_pending: "pending_ok (getPlayers_run es)"
  unfolding getPlayers_run_def
  by (rule run_invariant [where P = pending_ok])
     (simp_all add: getPlayers_init_def pending_ok_def getPlayers_pending_step [unfolded pending_ok_def])

lemma getPlayers_timeout:
  "outcome s = None \<Longrightarrow> outcome (getPlayers_on s TimerFired) = Some (Inl Timeout)"
  by (simp add: getPlayers_on_def settle_def close_def)

lemma queryPlayers_timeout:
  "outcome s = None \<Longrightarrow> \<not> qp_resolved s \<Longrightarrow>
   outcome (queryPlayers_on s TimerFired) = Some (Inl Timeout)"
  by (simp add: queryPlayers_on_def settle_def close_def)

lemma getPlayers_after_challenge:
  "getPlayers_run [Message [0xFF, 0xFF, 0xFF, 0xFF, 0x41, 0x4B, 0x61, 0x6C, 0x21]] =
     \<lparr>closes = 0, timers = 1, timer_on = True,
      sent = [challengePacket, playerPacket [0x4B, 0x61, 0x6C, 0x21]], outcome = None,
      challengeReceived = True\<rparr>"
  by (simp add: getPlayers_run_def run_def getPlayers_init_def delivered_def getPlayers_on_def
      send_def slice_def)

lemma queryPlayers_after_challenge:
  "queryPlayers_run [Message [0xFF, 0xFF, 0xFF, 0xFF, 0x41, 0x4B, 0x61, 0x6C, 0x21]] =
     \<lparr>closes = 0, timers = 1, timer_on = True,
      sent = [challengePacket, playerPacket [0x4B, 0x61, 0x6C, 0x21]], outcome = None,
      qp_resolved = False, qp_step = step_players\<rparr>"
  by (simp add: queryPlayers_run_def run_def queryPlayers_init_def delivered_def
      queryPlayers_on_def send_def slice_def at_def)

text \<open>
  C7. In the player query of either file one timer is armed, at the start, and no other
  afterwards. After any events, in the first leg or the second, a call that has not
  settled still has that timer armed, and its firing settles the call with
  \<^verbatim>\<open>Timeout\<close>: receiving the challenge neither clears nor re-arms it.
\<close>

theorem single_timer_spans_both_legs:
  "timers (getPlayers_run es) = 1 \<and> timers (queryPlayers_run es) = 1 \<and>
   (outcome (getPlayers_run es) = None \<longrightarrow>
      timer_on (getPlayers_run es) \<and>
      outcome (getPlayers_run (es @ [TimerFired])) = Some (Inl Timeout)) \<and>
   (outcome (queryPlayers_run es) = None \<longrightarrow>
      timer_on (queryPlayers_run es) \<and>
      outcome (queryPlayers_run (es @ [TimerFired])) = Some (Inl Timeout))"
proof -
  have g: "pending_ok (getPlayers_run es)" by (rule getPlayers_pending)
  have q: "guarded (qp_resolved (queryPlayers_run es)) (queryPlayers_run es)"
    by (rule queryPlayers_guarded)
  have gs: "getPlayers_run (es @ [TimerFired]) =
      (if delivered (getPlayers_run es) TimerFired
       then getPlayers_on (getPlayers_run es) TimerFired else getPlayers_run es)"
    by (simp add: getPlayers_run_def run_snoc)
  have qs: "queryPlayers_run (es @ [TimerFired]) =
      (if delivered (queryPlayers_run es) TimerFired
       then queryPlayers_on (queryPlayers_run es) TimerFired else queryPlayers_run es)"
    by (simp add: queryPlayers_run_def run_snoc)
  show ?thesis
    using g q getPlayers_timeout [of "getPlayers_run es"]
      queryPlayers_timeout [of "queryPlayers_run es"]
    unfolding gs qs
    by (auto simp: pending_ok_def guarded_def delivered_def split: if_splits)
qed

theorem single_timer_spans_both_legs_witness:
  "outcome (getPlayers_run [Message [0xFF, 0xFF, 0xFF, 0xFF, 0x41, 0x4B, 0x61, 0x6C, 0x21]]) = None \<and>
   challengeReceived
     (getPlayers_run [Message [0xFF, 0xFF, 0xFF, 0xFF, 0x41, 0x4B, 0x61, 0x6C, 0x21]]) \<and>
   outcome (getPlayers_run
     ([Message [0xFF, 0xFF, 0xFF, 0xFF, 0x41, 0x4B, 0x61, 0x6C, 0x21]] @ [TimerFired])) =
     Some (Inl Timeout) \<and>
   outcome (queryPlayers_run [Message [0xFF, 0xFF, 0xFF, 0xFF, 0x41, 0x4B, 0x61, 0x6C, 0x21]]) = None \<and>
   qp_step (queryPlayers_run [Message [0xFF, 0xFF, 0xFF, 0xFF, 0x41, 0x4B, 0x61, 0x6C, 0x21]]) =
     step_players \<and>
   outcome (queryPlayers_run
     ([Message [0xFF, 0xFF, 0xFF, 0xFF, 0x41, 0x4B, 0x61, 0x6C, 0x21]] @ [TimerFired])) =
     Some (Inl Timeout)"
  using single_timer_spans_both_legs
    [of "[Message [0xFF, 0xFF, 0xFF, 0xFF, 0x41, 0x4B, 0x61, 0x6C, 0x21]]"]
  by (simp add: getPlayers_after_challenge queryPlayers_after_challenge)

text \<open>
  In \<^verbatim>\<open>src/unnamed/part_000\<close> the flag \<^verbatim>\<open>resolved\<close> guards every callback: after any
  events the socket was closed once if the call has settled and not at all otherwise.
\<close>

lemma closes_once_part_000:
  "closes (queryServer_run es) = (if outcome (queryServer_run es) = None then 0 else 1) \<and>
   closes (queryPlayers_run es) = (if outcome (queryPlayers_run es) = None then 0 else 1)"
  using queryServer_guarded [of es] queryPlayers_guarded [of es]
  by (simp add: guarded_def split: if_splits)

text \<open>
  C8 at the events where \<^verbatim>\<open>src/server.js\<close> departs from it. The timer fires, closes
  the socket and rejects with \<^verbatim>\<open>Timeout\<close>; then the callback of the pending
  \<^verbatim>\<open>send\<close> is called with an error (the address lookup failed) and calls
  \<^verbatim>\<open>client.close()\<close> again. The same events close the socket of
  \<^verbatim>\<open>src/unnamed/part_000\<close> once.
\<close>

theorem server_js_closes_twice:
  "closes (getServerInfo_run [TimerFired, SendFailed]) = 2 \<and>
   outcome (getServerInfo_run [TimerFired, SendFailed]) = Some (Inl Timeout) \<and>
   closes (getPlayers_run [TimerFired, SendFailed]) = 2 \<and>
   outcome (getPlayers_run [TimerFired, SendFailed]) = Some (Inl Timeout) \<and>
   closes (queryServer_run [TimerFired, SendFailed]) = 1 \<and>
   closes (queryPlayers_run [TimerFired, SendFailed]) = 1"
  by (simp add: getServerInfo_run_def getPlayers_run_def queryServer_run_def
      queryPlayers_run_def run_def delivered_def getServerInfo_init_def getPlayers_init_def
      queryServer_init_def queryPlayers_init_def getServerInfo_on_def getPlayers_on_def
      queryServer_on_def queryPlayers_on_def settle_def close_def clearTimeout_def)

text \<open>
  In \<^verbatim>\<open>queryPlayers\<close> of \<^verbatim>\<open>src/unnamed/part_000\<close> a first datagram whose byte at
  offset 4 is not \<open>0x41\<close>, or is missing, settles the call with
  \<^verbatim>\<open>'Invalid challenge response'\<close>, whatever its length, and no player request is sent.
\<close>

lemma queryPlayers_rejects_wrong_tag:
  "at msg 4 \<noteq> Some 0x41 \<Longrightarrow>
   outcome (queryPlayers_run [Message msg]) = Some (Inl ChallengeRejected) \<and>
   closes (queryPlayers_run [Message msg]) = 1 \<and>
   sent (queryPlayers_run [Message msg]) = [challengePacket]"
  by (simp add: queryPlayers_run_def run_def queryPlayers_init_def delivered_def
      queryPlayers_on_def settle_def close_def clearTimeout_def)

text \<open>
  C1 at the input where \<^verbatim>\<open>src/server.js\<close> departs from it. A first datagram of nine
  bytes with type byte \<open>0x44\<close> is taken by \<^verbatim>\<open>getPlayers\<close> as the challenge: the call
  stays unsettled and a player request built from bytes 5 to 8 is sent, where
  \<^verbatim>\<open>queryPlayers\<close> rejects the challenge. A shorter first datagram is decoded as the
  player response: it fails as a malformed player response or, with type byte
  \<open>0x44\<close>, resolves with a player list.
\<close>

theorem getPlayers_accepts_any_long_datagram:
  "getPlayers_run [Message [0xFF, 0xFF, 0xFF, 0xFF, 0x44, 0x00, 0x00, 0x00, 0x00]] =
     \<lparr>closes = 0, timers = 1, timer_on = True,
      sent = [challengePacket, playerPacket [0x00, 0x00, 0x00, 0x00]], outcome = None,
      challengeReceived = True\<rparr> \<and>
   outcome (queryPlayers_run [Message [0xFF, 0xFF, 0xFF, 0xFF, 0x44, 0x00, 0x00, 0x00, 0x00]]) =
     Some (Inl ChallengeRejected) \<and>
   outcome (getPlayers_run [Message [0xFF, 0xFF, 0xFF, 0xFF, 0x49, 0x00]]) =
     Some (Inl (MalformedResponse ''Invalid player info response'')) \<and>
   outcome (getPlayers_run [Message [0xFF, 0xFF, 0xFF, 0xFF, 0x44, 0x00]]) = Some (Inr [])"
  by (simp add: getPlayers_run_def queryPlayers_run_def run_def getPlayers_init_def
      queryPlayers_init_def delivered_def getPlayers_on_def queryPlayers_on_def send_def
      slice_def at_def settle_def close_def clearTimeout_def parsePlayerInfo_def)

section \<open>The batch handlers: one query that throws\<close>

lemma zip_window:
  "zip [i ..< i + length (slice xs i j)] (slice xs i j) =
     map (\<lambda>k. (k, xs ! k)) [i ..< i + length (slice xs i j)]"
  by (rule nth_equalityI) (auto simp: slice_def min_def split: if_splits)

lemma window_upt:
  assumes "i < length xs" "0 < b"
  shows "[i ..< i + length (slice xs i (i + b))] @ [i + b ..< length xs] = [i ..< length xs]"
proof -
  have l: "i + length (slice xs i (i + b)) = min (i + b) (length xs)"
    using assms by (auto simp: slice_def)
  show ?thesis
  proof (cases "i + b \<le> length xs")
    case True
    then show ?thesis using l assms by (simp add: upt_split min_def)
  next
    case False
    then show ?thesis using l by (simp add: min_def)
  qed
qed

lemma window_bound: "i + length (slice xs i j) \<le> max i (length xs)"
  by (auto simp: slice_def)

lemma window_end:
  "i < length xs \<Longrightarrow> i + length (slice xs i (i + b)) = min (i + b) (length xs)"
  by (auto simp: slice_def)

lemma await_all_Returns: "await_all (map (\<lambda>x. Returns (f x)) xs) = Returns (map f xs)"
  by (induction xs) simp_all

lemma await_all_Uncaught: "Uncaught \<in> set ps \<Longrightarrow> await_all ps = Uncaught"
proof (induction ps)
  case Nil
  then show ?case by simp
next
  case (Cons p ps)
  then show ?case by (cases p) (auto split: process.splits)
qed

lemma promise_all_Fulfilled:
  "promise_all (map (\<lambda>x. Fulfilled (f x)) xs) = Fulfilled (map f xs)"
  by (induction xs) simp_all

lemma promise_all_Rejected: "Rejected \<in> set ps \<Longrightarrow> promise_all ps = Rejected"
proof (induction ps)
  case Nil
  then show ?case by simp
next
  case (Cons p ps)
  then show ?case by (cases p) (auto split: promise.splits)
qed

lemma batch_window:
  "map (\<lambda>(k, server). g k server) (zip [i ..< i + length (slice xs i j)] (slice xs i j)) =
     map (\<lambda>k. g k (xs ! k)) [i ..< i + length (slice xs i j)]"
  by (simp add: zip_window o_def)

lemma batch_loop_returns:
  assumes "\<And>k. k < length servers \<Longrightarrow>
             batch_promise (info k) (plrs k) (servers ! k) = Returns (f k)"
  shows "batch_loop info plrs servers i results =
           Returns (results @ map f [i ..< length servers])"
  using assms
proof (induction info plrs servers i results rule: batch_loop.induct)
  case (1 info plrs servers i results)
  show ?case
  proof (cases "i < length servers")
    case True
    let ?w = "[i ..< i + length (slice servers i (i + BATCH_SIZE))]"
    let ?ps = "map (\<lambda>(k, server). batch_promise (info k) (plrs k) server)
                 (zip ?w (slice servers i (i + BATCH_SIZE)))"
    have "?ps = map (\<lambda>k. batch_promise (info k) (plrs k) (servers ! k)) ?w"
      by (rule batch_window)
    also have "\<dots> = map (\<lambda>k. Returns (f k)) ?w"
      using "1.prems" True by (intro map_cong refl) (auto simp: window_end)
    finally have w: "await_all ?ps = Returns (map f ?w)"
      by (simp add: await_all_Returns)
    have ih: "batch_loop info plrs servers (i + BATCH_SIZE) (results @ map f ?w) =
                Returns ((results @ map f ?w) @ map f [i + BATCH_SIZE ..< length servers])"
      using "1.IH" [OF True refl refl w] "1.prems" by simp
    have "map f (?w @ [i + BATCH_SIZE ..< length servers]) = map f [i ..< length servers]"
      using window_upt [OF True, of BATCH_SIZE] by (simp add: BATCH_SIZE_def)
    then show ?thesis
      using True w ih by (subst batch_loop.simps) (simp add: Let_def)
  next
    case False
    then show ?thesis by (subst batch_loop.simps) simp
  qed
qed

lemma batch_loop_uncaught:
  assumes "i \<le> k" "k < length servers"
    "batch_promise (info k) (plrs k) (servers ! k) = Uncaught"
  shows "batch_loop info plrs servers i results = Uncaught"
  using assms
proof (induction info plrs servers i results rule: batch_loop.induct)
  case (1 info plrs servers i results)
  have i: "i < length servers" using "1.prems" by simp
  let ?w = "[i ..< i + length (slice servers i (i + BATCH_SIZE))]"
  let ?ps = "map (\<lambda>(k, server). batch_promise (info k) (plrs k) server)
               (zip ?w (slice servers i (i + BATCH_SIZE)))"
  have ps: "?ps = map (\<lambda>k. batch_promise (info k) (plrs k) (servers ! k)) ?w"
    by (rule batch_window)
  show ?case
  proof (cases "await_all ?ps")
    case Uncaught
    then show ?thesis using i by (subst batch_loop.simps) (simp add: Let_def)
  next
    case (Returns vs)
    have "k \<notin> set ?w"
    proof
      assume "k \<in> set ?w"
      then have "Uncaught \<in> set ?ps"
        unfolding ps using "1.prems"(3) by (force simp: image_iff)
      then show False using Returns by (simp add: await_all_Uncaught)
    qed
    then have "i + BATCH_SIZE \<le> k"
      using "1.prems" i by (auto simp: window_end min_def split: if_splits)
    then have "batch_loop info plrs servers (i + BATCH_SIZE) (results @ vs) = Uncaught"
      using "1.IH" [OF i refl refl Returns] "1.prems" by simp
    then show ?thesis using i Returns by (subst batch_loop.simps) (simp add: Let_def)
  qed
qed


lemma a2s_batch_loop_fulfilled:
  assumes "\<And>k. k < length servers \<Longrightarrow>
             a2s_batch_promise (info k) (plrs k) (servers ! k) = Fulfilled (f k)"
  shows "a2s_batch_loop info plrs servers i results =
           Fulfilled (results @ map f [i ..< length servers])"
  using assms
proof (induction info plrs servers i results rule: a2s_batch_loop.induct)
  case (1 info plrs servers i results)
  show ?case
  proof (cases "i < length servers")
    case True
    let ?w = "[i ..< i + length (slice servers i (i + concurrency))]"
    let ?ps = "map (\<lambda>(k, server). a2s_batch_promise (info k) (plrs k) server)
                 (zip ?w (slice servers i (i + concurrency)))"
    have "?ps = map (\<lambda>k. a2s_batch_promise (info k) (plrs k) (servers ! k)) ?w"
      by (rule batch_window)
    also have "\<dots> = map (\<lambda>k. Fulfilled (f k)) ?w"
      using "1.prems" True by (intro map_cong refl) (auto simp: window_end)
    finally have w: "promise_all ?ps = Fulfilled (map f ?w)"
      by (simp add: promise_all_Fulfilled)
    have ih: "a2s_batch_loop info plrs servers (i + concurrency) (results @ map f ?w) =
                Fulfilled ((results @ map f ?w) @ map f [i + concurrency ..< length servers])"
      using "1.IH" [OF True refl refl w] "1.prems" by simp
    have "map f (?w @ [i + concurrency ..< length servers]) = map f [i ..< length servers]"
      using window_upt [OF True, of concurrency] by (simp add: concurrency_def)
    then show ?thesis
      using True w ih by (subst a2s_batch_loop.simps) (simp add: Let_def)
  next
    case False
    then show ?thesis by (subst a2s_batch_loop.simps) simp
  qed
qed

lemma a2s_batch_loop_rejected:
  assumes "i \<le> k" "k < length servers"
    "a2s_batch_promise (info k) (plrs k) (servers ! k) = Rejected"
  shows "a2s_batch_loop info plrs servers i results = Rejected"
  using assms
proof (induction info plrs servers i results rule: a2s_batch_loop.induct)
  case (1 info plrs servers i results)
  have i: "i < length servers" using "1.prems" by simp
  let ?w = "[i ..< i + length (slice servers i (i + concurrency))]"
  let ?ps = "map (\<lambda>(k, server). a2s_batch_promise (info k) (plrs k) server)
               (zip ?w (slice servers i (i + concurrency)))"
  have ps: "?ps = map (\<lambda>k. a2s_batch_promise (info k) (plrs k) (servers ! k)) ?w"
    by (rule batch_window)
  show ?case
  proof (cases "promise_all ?ps")
    case Rejected
    then show ?thesis using i by (subst a2s_batch_loop.simps) (simp add: Let_def)
  next
    case (Fulfilled vs)
    have "k \<notin> set ?w"
    proof
      assume "k \<in> set ?w"
      then have "Rejected \<in> set ?ps"
        unfolding ps using "1.prems"(3) by (force simp: image_iff)
      then show False using Fulfilled by (simp add: promise_all_Rejected)
    qed
    then have "i + concurrency \<le> k"
      using "1.prems" i by (auto simp: window_end min_def split: if_splits)
    then have "a2s_batch_loop info plrs servers (i + concurrency) (results @ vs) = Rejected"
      using "1.IH" [OF i refl refl Fulfilled] "1.prems" by simp
    then show ?thesis using i Fulfilled by (subst a2s_batch_loop.simps) (simp add: Let_def)
  qed
qed

text \<open>
  \<^verbatim>\<open>src/server.js\<close>: a server whose port cannot be sent to gets its result, with the
  error of \<^verbatim>\<open>send\<close> for both queries.
\<close>

lemma batch_promise_bad_port:
  "\<not> sendable (sp_port server) \<Longrightarrow>
   batch_promise ies pes server = Returns (batch_item (Inl Network) (Inl Network) server)"
  by (simp add: batch_promise_def getServerInfo_def getPlayers_def)

lemma batch_promise_closes_once:
  "sendable (sp_port server) \<Longrightarrow>
   closes (getServerInfo_run ies) \<le> 1 \<Longrightarrow> closes (getPlayers_run pes) \<le> 1 \<Longrightarrow>
   batch_promise ies pes server =
     Returns (batch_item (settles (getServerInfo_run ies)) (settles (getPlayers_run pes)) server)"
  by (simp add: batch_promise_def getServerInfo_def getPlayers_def)

lemma batch_promise_closes_twice:
  "sendable (sp_port server) \<Longrightarrow>
   1 < closes (getServerInfo_run ies) \<or> 1 < closes (getPlayers_run pes) \<Longrightarrow>
   batch_promise ies pes server = Uncaught"
  by (auto simp: batch_promise_def getServerInfo_def getPlayers_def)

lemma a2s_batch_promise_sendable:
  "sendable (sp_port server) \<Longrightarrow>
   a2s_batch_promise ies pes server =
     Fulfilled (a2s_batch_item (settles (queryServer_run ies)) (settles (queryPlayers_run pes))
                  server)"
  by (simp add: a2s_batch_promise_def queryServer_def queryPlayers_def)

lemma a2s_batch_promise_bad_port:
  "\<not> sendable (sp_port server) \<Longrightarrow> a2s_batch_promise ies pes server = Rejected"
  by (simp add: a2s_batch_promise_def queryServer_def queryPlayers_def)

text \<open>
  The handler of \<^verbatim>\<open>src/unnamed/part_000\<close> on a request whose ports can all be sent to:
  one result per server, in the order of the request, the result at position \<open>k\<close> built
  from the server at position \<open>k\<close> and from how its own two queries settle.
\<close>

lemma a2s_query_batch_sendable:
  assumes "\<And>k. k < length servers \<Longrightarrow> sendable (sp_port (servers ! k))"
  shows "a2s_query_batch info plrs servers =
           Fulfilled (map (\<lambda>k. a2s_batch_item (settles (queryServer_run (info k)))
                                 (settles (queryPlayers_run (plrs k))) (servers ! k))
                        [0 ..< length servers])"
  unfolding a2s_query_batch_def
  using a2s_batch_loop_fulfilled
    [of servers info plrs
        "\<lambda>k. a2s_batch_item (settles (queryServer_run (info k)))
                (settles (queryPlayers_run (plrs k))) (servers ! k)" 0 "[]"]
    assms
  by (simp add: a2s_batch_promise_sendable)

text \<open>One server whose port cannot be sent to, anywhere in the request, and the handler
  of \<^verbatim>\<open>src/unnamed/part_000\<close> returns no results.\<close>

lemma a2s_query_batch_bad_port:
  "k < length servers \<Longrightarrow> \<not> sendable (sp_port (servers ! k)) \<Longrightarrow>
   a2s_query_batch info plrs servers = Rejected"
  unfolding a2s_query_batch_def
  by (rule a2s_batch_loop_rejected [of 0 k]) (simp_all add: a2s_batch_promise_bad_port)

text \<open>
  The handler of \<^verbatim>\<open>src/server.js\<close> on a request none of whose queries closes its
  socket twice: one result per server, in the order of the request.
\<close>

lemma query_batch_closes_once:
  assumes "\<And>k. k < length servers \<Longrightarrow> sendable (sp_port (servers ! k)) \<Longrightarrow>
             closes (getServerInfo_run (info k)) \<le> 1 \<and> closes (getPlayers_run (plrs k)) \<le> 1"
  shows "query_batch info plrs servers =
           Returns (map (\<lambda>k. if sendable (sp_port (servers ! k))
                              then batch_item (settles (getServerInfo_run (info k)))
                                     (settles (getPlayers_run (plrs k))) (servers ! k)
                              else batch_item (Inl Network) (Inl Network) (servers ! k))
                      [0 ..< length servers])"
  unfolding query_batch_def
  using batch_loop_returns
    [of servers info plrs
        "\<lambda>k. if sendable (sp_port (servers ! k))
              then batch_item (settles (getServerInfo_run (info k)))
                     (settles (getPlayers_run (plrs k))) (servers ! k)
              else batch_item (Inl Network) (Inl Network) (servers ! k)" 0 "[]"]
    assms
  by (simp add: batch_promise_bad_port batch_promise_closes_once)

lemma query_batch_closes_twice:
  "k < length servers \<Longrightarrow> sendable (sp_port (servers ! k)) \<Longrightarrow>
   1 < closes (getServerInfo_run (info k)) \<or> 1 < closes (getPlayers_run (plrs k)) \<Longrightarrow>
   query_batch info plrs servers = Uncaught"
  unfolding query_batch_def
  by (rule batch_loop_uncaught [of 0 k]) (simp_all add: batch_promise_closes_twice)

lemma getServerInfo_pending_step:
  "pending_ok s \<Longrightarrow> delivered s e \<Longrightarrow> pending_ok (getServerInfo_on s e)"
  by (cases e)
     (auto simp: pending_ok_def getServerInfo_on_def delivered_def settle_def close_def
           clearTimeout_def split: option.splits if_splits)

lemma getServerInfo_pending: "pending_ok (getServerInfo_run es)"
  unfolding getServerInfo_run_def
  by (rule run_invariant [where P = pending_ok])
     (simp_all add: getServerInfo_init_def pending_ok_def
        getServerInfo_pending_step [unfolded pending_ok_def])

text \<open>
  \<^const>\<open>settles\<close> is how each of the four calls has settled once its timer has had its
  turn after the events.
\<close>

lemma settles_after_the_timer:
  "outcome (getServerInfo_run (es @ [TimerFired])) = Some (settles (getServerInfo_run es))"
  "outcome (getPlayers_run (es @ [TimerFired])) = Some (settles (getPlayers_run es))"
  "outcome (queryServer_run (es @ [TimerFired])) = Some (settles (queryServer_run es))"
  "outcome (queryPlayers_run (es @ [TimerFired])) = Some (settles (queryPlayers_run es))"
proof -
  show "outcome (getServerInfo_run (es @ [TimerFired])) = Some (settles (getServerInfo_run es))"
    using getServerInfo_pending [of es]
    by (auto simp: getServerInfo_run_def run_snoc pending_ok_def delivered_def settles_def
        getServerInfo_on_def settle_def close_def split: option.splits if_splits)
  show "outcome (getPlayers_run (es @ [TimerFired])) = Some (settles (getPlayers_run es))"
    using getPlayers_pending [of es]
    by (auto simp: getPlayers_run_def run_snoc pending_ok_def delivered_def settles_def
        getPlayers_on_def settle_def close_def split: option.splits if_splits)
  show "outcome (queryServer_run (es @ [TimerFired])) = Some (settles (queryServer_run es))"
    using queryServer_guarded [of es]
    by (auto simp: queryServer_run_def run_snoc guarded_def delivered_def settles_def
        queryServer_on_def settle_def close_def split: option.splits if_splits)
  show "outcome (queryPlayers_run (es @ [TimerFired])) = Some (settles (queryPlayers_run es))"
    using queryPlayers_guarded [of es]
    by (auto simp: queryPlayers_run_def run_snoc guarded_def delivered_def settles_def
        queryPlayers_on_def settle_def close_def split: option.splits if_splits)
qed

lemma silent_queries:
  "settles (getServerInfo_run []) = Inl Timeout" "closes (getServerInfo_run []) = 0"
  "settles (getPlayers_run []) = Inl Timeout" "closes (getPlayers_run []) = 0"
  "settles (queryServer_run []) = Inl Timeout" "settles (queryPlayers_run []) = Inl Timeout"
  by (simp_all add: settles_def getServerInfo_run_def getPlayers_run_def queryServer_run_def
      queryPlayers_run_def run_Nil getServerInfo_init_def getPlayers_init_def
      queryServer_init_def queryPlayers_init_def)

lemma late_send_failure:
  "closes (getServerInfo_run [TimerFired, SendFailed]) = 2"
  "settles (queryServer_run [TimerFired, SendFailed]) = Inl Timeout"
  by (simp_all add: settles_def getServerInfo_run_def queryServer_run_def run_def delivered_def
      getServerInfo_init_def queryServer_init_def getServerInfo_on_def queryServer_on_def
      settle_def close_def clearTimeout_def)

text \<open>
  C6 at the requests where the code departs from it. In a request of two servers of
  which nobody answers, the second has port 0: \<^verbatim>\<open>client.send\<close> throws in the executors
  of \<^verbatim>\<open>queryServer\<close> and \<^verbatim>\<open>queryPlayers\<close>, the handler of \<^verbatim>\<open>src/unnamed/part_000\<close>
  awaits with no \<^verbatim>\<open>try\<close> and returns no result, not even the first server's, where
  the handler of \<^verbatim>\<open>src/server.js\<close> returns both results, the second with the error of
  \<^verbatim>\<open>send\<close>. In a request of two servers with good ports, the info query of the second
  times out and the callback of its \<^verbatim>\<open>send\<close> is then called with an error: in
  \<^verbatim>\<open>src/server.js\<close> the second \<^verbatim>\<open>client.close()\<close> throws from that callback and no
  result is returned, where the handler of \<^verbatim>\<open>src/unnamed/part_000\<close> returns both.
\<close>

theorem one_query_aborts_the_batch:
  "a2s_query_batch (\<lambda>k. []) (\<lambda>k. []) [spec 0, port0 1] = Rejected \<and>
   query_batch (\<lambda>k. []) (\<lambda>k. []) [spec 0, port0 1] =
     Returns
       [\<lparr>br_id = 0, br_ip = ''203.0.113.7'', br_port = 27015, br_serverInfo = None,
         br_players = None, br_errors_serverInfo = Some Timeout,
         br_errors_players = Some Timeout\<rparr>,
        \<lparr>br_id = 1, br_ip = ''203.0.113.7'', br_port = 0, br_serverInfo = None,
         br_players = None, br_errors_serverInfo = Some Network,
         br_errors_players = Some Network\<rparr>] \<and>
   query_batch (\<lambda>k. if k = 1 then [TimerFired, SendFailed] else []) (\<lambda>k. [])
     [spec 0, spec 1] = Uncaught \<and>
   a2s_query_batch (\<lambda>k. if k = 1 then [TimerFired, SendFailed] else []) (\<lambda>k. [])
     [spec 0, spec 1] =
     Fulfilled
       [\<lparr>ar_id = 0, ar_ip = ''203.0.113.7'', ar_port = 27015, ar_serverInfo = None,
         ar_players = [], ar_errors_serverInfo = Some Timeout,
         ar_errors_players = Some Timeout\<rparr>,
        \<lparr>ar_id = 1, ar_ip = ''203.0.113.7'', ar_port = 27016, ar_serverInfo = None,
         ar_players = [], ar_errors_serverInfo = Some Timeout,
         ar_errors_players = Some Timeout\<rparr>]"
proof -
  have two: "[0 ..< 2] = [0, Suc 0]" by (simp add: upt_rec)
  have a: "a2s_query_batch (\<lambda>k. []) (\<lambda>k. []) [spec 0, port0 1] = Rejected"
    by (rule a2s_query_batch_bad_port [of 1]) (simp_all add: port0_def sendable_def)
  have b: "query_batch (\<lambda>k. []) (\<lambda>k. []) [spec 0, port0 1] =
     Returns
       [\<lparr>br_id = 0, br_ip = ''203.0.113.7'', br_port = 27015, br_serverInfo = None,
         br_players = None, br_errors_serverInfo = Some Timeout,
         br_errors_players = Some Timeout\<rparr>,
        \<lparr>br_id = 1, br_ip = ''203.0.113.7'', br_port = 0, br_serverInfo = None,
         br_players = None, br_errors_serverInfo = Some Network,
         br_errors_players = Some Network\<rparr>]"
    by (subst query_batch_closes_once)
       (simp_all add: silent_queries two spec_def port0_def sendable_def batch_item_def)
  have c: "query_batch (\<lambda>k. if k = 1 then [TimerFired, SendFailed] else []) (\<lambda>k. [])
     [spec 0, spec 1] = Uncaught"
    by (rule query_batch_closes_twice [of 1])
       (simp_all add: spec_def sendable_def late_send_failure)
  have d: "a2s_query_batch (\<lambda>k. if k = 1 then [TimerFired, SendFailed] else []) (\<lambda>k. [])
     [spec 0, spec 1] =
     Fulfilled
       [\<lparr>ar_id = 0, ar_ip = ''203.0.113.7'', ar_port = 27015, ar_serverInfo = None,
         ar_players = [], ar_errors_serverInfo = Some Timeout,
         ar_errors_players = Some Timeout\<rparr>,
        \<lparr>ar_id = 1, ar_ip = ''203.0.113.7'', ar_port = 27016, ar_serverInfo = None,
         ar_players = [], ar_errors_serverInfo = Some Timeout,
         ar_errors_players = Some Timeout\<rparr>]"
    by (subst a2s_query_batch_sendable)
       (auto simp: silent_queries late_send_failure two spec_def sendable_def
          a2s_batch_item_def less_Suc_eq)
  show ?thesis using a b c d by simp
qed

end
